theory Spec2Isabelle
  imports Complex_Main
begin

section \<open>JavaScript values used by the frontend\<close>

text \<open>
  A JavaScript \<^verbatim>\<open>number\<close> is a double. The operations the page applies to the quantity
  (\<^verbatim>\<open>Math.max\<close>, \<^verbatim>\<open><=\<close>, \<^verbatim>\<open>>=\<close>) never round, so a finite double is modelled by the
  rational it denotes; \<^verbatim>\<open>NaN\<close> and the two infinities are values of their own.
\<close>

datatype jsnum = NaN | NegInf | Fin rat | PosInf

text \<open>\<^verbatim>\<open>a <= b\<close>: false as soon as one side is \<^verbatim>\<open>NaN\<close>.\<close>

fun js_le :: "jsnum \<Rightarrow> jsnum \<Rightarrow> bool" where
  "js_le NaN b = False"
| "js_le a NaN = False"
| "js_le NegInf b = True"
| "js_le (Fin x) NegInf = False"
| "js_le (Fin x) (Fin y) = (x \<le> y)"
| "js_le (Fin x) PosInf = True"
| "js_le PosInf PosInf = True"
| "js_le PosInf b = False"

text \<open>\<^verbatim>\<open>Math.max(a, b)\<close>: \<^verbatim>\<open>NaN\<close> as soon as one argument is \<^verbatim>\<open>NaN\<close>.\<close>

fun Math_max :: "jsnum \<Rightarrow> jsnum \<Rightarrow> jsnum" where
  "Math_max NaN b = NaN"
| "Math_max a NaN = NaN"
| "Math_max a b = (if js_le a b then b else a)"

text \<open>
  \<^verbatim>\<open>JSON.stringify\<close> of a number inside an object: a finite number is written as a JSON
  number, \<^verbatim>\<open>NaN\<close> and the infinities as \<^verbatim>\<open>null\<close> (here \<open>None\<close>).
\<close>

fun JSON_number :: "jsnum \<Rightarrow> rat option" where
  "JSON_number (Fin x) = Some x"
| "JSON_number n = None"

text \<open>
  Strings are lists of bytes (UTF-8 for the few characters outside ASCII).
  \<^verbatim>\<open>s.startsWith(p)\<close> and \<^verbatim>\<open>s.includes(p)\<close>:
\<close>

fun startsWith :: "string \<Rightarrow> string \<Rightarrow> bool" where
  "startsWith s [] = True"
| "startsWith [] (p # ps) = False"
| "startsWith (c # cs) (p # ps) = (c = p \<and> startsWith cs ps)"

fun includes_str :: "string \<Rightarrow> string \<Rightarrow> bool" where
  "includes_str [] p = (p = [])"
| "includes_str (c # cs) p = (startsWith (c # cs) p \<or> includes_str cs p)"

text \<open>
  \<^verbatim>\<open>String(n)\<close> for an integer \<open>n\<close>, and \<^verbatim>\<open>s.padStart(n, c)\<close> for a one-character pad.
\<close>

fun String_nat :: "nat \<Rightarrow> string" where
  "String_nat n =
     (if n < 10 then [''0123456789'' ! n]
      else String_nat (n div 10) @ [''0123456789'' ! (n mod 10)])"

definition String_int :: "int \<Rightarrow> string" where
  "String_int i = (if i < 0 then CHR ''-'' # String_nat (nat (- i)) else String_nat (nat i))"

definition padStart :: "nat \<Rightarrow> char \<Rightarrow> string \<Rightarrow> string" where
  "padStart n c s = replicate (n - length s) c @ s"

text \<open>
  \<^verbatim>\<open>a % b\<close> on integers: the remainder has the sign of the dividend. \<^verbatim>\<open>Math.floor(a / b)\<close>
  for a positive \<open>b\<close> is HOL's \<open>div\<close>.
\<close>

definition js_rem :: "int \<Rightarrow> int \<Rightarrow> int" where
  "js_rem a b = sgn a * (\<bar>a\<bar> mod \<bar>b\<bar>)"

section \<open>hooks/useReservationTimer.ts\<close>

text \<open>
  A time value (\<^verbatim>\<open>Date.prototype.getTime()\<close>, \<^verbatim>\<open>Date.now()\<close>) is an integer number of
  milliseconds, or \<^verbatim>\<open>NaN\<close> for an invalid date: \<open>None\<close> stands for \<^verbatim>\<open>NaN\<close>.
  \<^verbatim>\<open>new Date(s).getTime()\<close> is the platform's date parser, a parameter \<open>getTime\<close> of the
  model. Integer differences of time values are exact in doubles.
\<close>

type_synonym timeval = "int option"

text \<open>\<^verbatim>\<open>!expiresAt\<close> for \<^verbatim>\<open>expiresAt?: string\<close>: undefined and the empty string are falsy.\<close>

definition falsy :: "string option \<Rightarrow> bool" where
  "falsy s = (case s of None \<Rightarrow> True | Some v \<Rightarrow> v = [])"

text \<open>\<^verbatim>\<open>target - now\<close>, \<^verbatim>\<open>Math.max(d, 0)\<close> and \<^verbatim>\<open>d > 0\<close> on time values.\<close>

definition time_minus :: "timeval \<Rightarrow> int \<Rightarrow> timeval" where
  "time_minus target now = (case target of None \<Rightarrow> None | Some t \<Rightarrow> Some (t - now))"

definition Math_max0 :: "timeval \<Rightarrow> timeval" where
  "Math_max0 d = (case d of None \<Rightarrow> None | Some x \<Rightarrow> Some (max x 0))"

definition gt0 :: "timeval \<Rightarrow> bool" where
  "gt0 d = (case d of None \<Rightarrow> False | Some x \<Rightarrow> x > 0)"

text \<open>
  The hook's React state is \<open>remainingMs\<close>; \<open>elapsedCalls\<close> counts the invocations of
  \<^verbatim>\<open>onElapsed\<close>. The variable \<^verbatim>\<open>last\<close> lives in the effect's closure and is threaded
  through the ticks.
\<close>

record timer =
  remainingMs :: "int option"
  elapsedCalls :: nat

text \<open>
  One call of \<^verbatim>\<open>tick\<close> at clock reading \<open>now\<close>. \<open>hasOnElapsed\<close> says whether the
  optional callback was passed.
\<close>

definition tick :: "bool \<Rightarrow> timeval \<Rightarrow> int \<Rightarrow> timeval \<times> timer \<Rightarrow> timeval \<times> timer" where
  "tick hasOnElapsed target now st =
     (let lst = fst st; s = snd st;
          diff = time_minus target now;
          nxt = (if gt0 diff then the diff else 0);
          s1 = s\<lparr>remainingMs := Some nxt\<rparr>;
          s2 = (if gt0 lst \<and> nxt = 0 \<and> hasOnElapsed
                then s1\<lparr>elapsedCalls := elapsedCalls s1 + 1\<rparr> else s1)
      in (Some nxt, s2))"

text \<open>
  One lifetime of the effect: \<open>now0\<close> is the clock reading that initialises \<^verbatim>\<open>last\<close>,
  \<open>now1\<close> the reading of the immediate \<^verbatim>\<open>tick()\<close>, \<open>nows\<close> the readings of the interval's
  ticks until the cleanup.
\<close>

definition useEffect_timer ::
  "(string \<Rightarrow> timeval) \<Rightarrow> string option \<Rightarrow> bool \<Rightarrow> int \<Rightarrow> int \<Rightarrow> int list \<Rightarrow> timer \<Rightarrow> timer" where
  "useEffect_timer getTime expiresAt hasOnElapsed now0 now1 nows s =
     (if falsy expiresAt then s\<lparr>remainingMs := None\<rparr>
      else
        let target = getTime (the expiresAt);
            lst = Math_max0 (time_minus target now0)
        in snd (foldl (\<lambda>st now. tick hasOnElapsed target now st) (lst, s) (now1 # nows)))"

text \<open>What the hook returns at a render: \<open>(remainingMs, mm, ss)\<close>.\<close>

definition totalSeconds :: "int option \<Rightarrow> int option" where
  "totalSeconds r = (case r of None \<Rightarrow> None | Some ms \<Rightarrow> Some (ms div 1000))"

definition mm :: "int option \<Rightarrow> string" where
  "mm r = (case totalSeconds r of None \<Rightarrow> ''--''
           | Some ts \<Rightarrow> padStart 2 (CHR ''0'') (String_int (ts div 60)))"

definition ss :: "int option \<Rightarrow> string" where
  "ss r = (case totalSeconds r of None \<Rightarrow> ''--''
           | Some ts \<Rightarrow> padStart 2 (CHR ''0'') (String_int (js_rem ts 60)))"

definition useReservationTimer_result :: "timer \<Rightarrow> int option \<times> string \<times> string" where
  "useReservationTimer_result s = (remainingMs s, mm (remainingMs s), ss (remainingMs s))"

text \<open>The initial React state of the hook: \<^verbatim>\<open>useState(null)\<close>, no callback invoked yet.\<close>

definition timer0 :: timer where
  "timer0 = \<lparr>remainingMs = None, elapsedCalls = 0\<rparr>"

section \<open>components/ProductsPage.tsx: the data\<close>

datatype ReservationStatus = ACTIVE | COMPLETED | EXPIRED

text \<open>\<^verbatim>\<open>price: string | number\<close>\<close>

datatype price = PriceString string | PriceNumber jsnum

record Product =
  p_id :: string
  p_name :: string
  p_price :: price
  p_availableStock :: jsnum

record Reservation =
  r_id :: string
  r_productId :: string
  r_quantity :: jsnum
  r_status :: ReservationStatus
  r_expiresAt :: string
  r_createdAt :: string
  r_product :: "Product option"

datatype ToastType = ToastSuccess | ToastError | ToastInfo

record Toast =
  t_id :: int
  t_type :: ToastType
  t_message :: string

text \<open>The element type of the \<^verbatim>\<open>products:updated\<close> socket message.\<close>

record StockUpdate =
  u_id :: string
  u_availableStock :: jsnum

section \<open>The countdown target: activeReservations and nextExpirationIso\<close>

definition activeReservations :: "Reservation list \<Rightarrow> Reservation list" where
  "activeReservations reservations = filter (\<lambda>r. r_status r = ACTIVE) reservations"

text \<open>
  \<^verbatim>\<open>Math.max(a, b)\<close> and \<^verbatim>\<open>Math.min(a, b)\<close> on time values; \<^verbatim>\<open>Math.max(...ts)\<close> of a
  non-empty argument list folds them from the first argument.
\<close>

definition time_max :: "timeval \<Rightarrow> timeval \<Rightarrow> timeval" where
  "time_max a b = (case a of None \<Rightarrow> None
                   | Some x \<Rightarrow> (case b of None \<Rightarrow> None | Some y \<Rightarrow> Some (max x y)))"

definition time_min :: "timeval \<Rightarrow> timeval \<Rightarrow> timeval" where
  "time_min a b = (case a of None \<Rightarrow> None
                   | Some x \<Rightarrow> (case b of None \<Rightarrow> None | Some y \<Rightarrow> Some (min x y)))"

text \<open>\<^verbatim>\<open>new Date(NaN).toISOString()\<close> throws a RangeError.\<close>

datatype js_exn = RangeError | SecurityError | QuotaExceededError

text \<open>
  The first page version (the latest deadline) and the second (the earliest). \<open>getTime\<close>
  is \<^verbatim>\<open>new Date(s).getTime()\<close>, \<open>toISOString\<close> is \<^verbatim>\<open>new Date(t).toISOString()\<close> for a
  valid time \<open>t\<close>. \<open>Inr None\<close> is \<^verbatim>\<open>undefined\<close>.
\<close>

definition nextExpirationIso_max ::
  "(string \<Rightarrow> timeval) \<Rightarrow> (int \<Rightarrow> string) \<Rightarrow> Reservation list \<Rightarrow> js_exn + string option" where
  "nextExpirationIso_max getTime toISOString reservations =
     (case map (\<lambda>r. getTime (r_expiresAt r)) (activeReservations reservations) of
        [] \<Rightarrow> Inr None
      | t # ts \<Rightarrow>
          (case foldl time_max t ts of
             None \<Rightarrow> Inl RangeError
           | Some maxTime \<Rightarrow> Inr (Some (toISOString maxTime))))"

definition nextExpirationIso_min ::
  "(string \<Rightarrow> timeval) \<Rightarrow> (int \<Rightarrow> string) \<Rightarrow> Reservation list \<Rightarrow> js_exn + string option" where
  "nextExpirationIso_min getTime toISOString reservations =
     (case map (\<lambda>r. getTime (r_expiresAt r)) (activeReservations reservations) of
        [] \<Rightarrow> Inr None
      | t # ts \<Rightarrow>
          (case foldl time_min t ts of
             None \<Rightarrow> Inl RangeError
           | Some minTime \<Rightarrow> Inr (Some (toISOString minTime))))"

section \<open>The socket handler handleProductsUpdated\<close>

text \<open>
  A JavaScript \<^verbatim>\<open>Map\<close> keeps its entries in insertion order; \<^verbatim>\<open>set\<close> on a key that is
  present replaces the value in place, on a new key appends. \<^verbatim>\<open>new Map(entries)\<close> sets
  the entries one after the other, \<^verbatim>\<open>Array.from(map.values())\<close> lists the values.
\<close>

fun Map_set :: "'k \<Rightarrow> 'v \<Rightarrow> ('k \<times> 'v) list \<Rightarrow> ('k \<times> 'v) list" where
  "Map_set k v [] = [(k, v)]"
| "Map_set k v ((k', v') # m) = (if k' = k then (k, v) # m else (k', v') # Map_set k v m)"

definition Map_get :: "'k \<Rightarrow> ('k \<times> 'v) list \<Rightarrow> 'v option" where
  "Map_get k m = map_of m k"

definition new_Map :: "('k \<times> 'v) list \<Rightarrow> ('k \<times> 'v) list" where
  "new_Map entries = foldl (\<lambda>m kv. Map_set (fst kv) (snd kv) m) [] entries"

definition Map_values :: "('k \<times> 'v) list \<Rightarrow> 'v list" where
  "Map_values m = map snd m"

text \<open>The body of the loop \<^verbatim>\<open>for (const u of updates)\<close>.\<close>

definition patch_one :: "(string \<times> Product) list \<Rightarrow> StockUpdate \<Rightarrow> (string \<times> Product) list" where
  "patch_one m u =
     (case Map_get (u_id u) m of
        Some existing \<Rightarrow> Map_set (u_id u) (existing\<lparr>p_availableStock := u_availableStock u\<rparr>) m
      | None \<Rightarrow> m)"

text \<open>The function passed to \<^verbatim>\<open>setProducts\<close>: from the previous list to the next.\<close>

definition handleProductsUpdated :: "StockUpdate list \<Rightarrow> Product list \<Rightarrow> Product list" where
  "handleProductsUpdated updates prev =
     (if length prev = 0 then prev
      else Map_values (foldl patch_one (new_Map (map (\<lambda>p. (p_id p, p)) prev)) updates))"

section \<open>lib/api.ts: fetchJSON\<close>

text \<open>
  What the network does with one request: \<^verbatim>\<open>fetch\<close> (or reading the body) rejects with an
  Error that has a message; the response is not ok, with its body text and status text;
  the response is ok and its body parses to a value; the response is ok and
  \<^verbatim>\<open>res.json()\<close> rejects with an Error that has a message.
\<close>

datatype 'a fetch_outcome =
    Rejected string
  | NotOk string string
  | OkJson 'a
  | OkBadJson string

text \<open>
  \<open>Inl e\<close> is a thrown value \<open>e\<close>: \<open>Some m\<close> when \<^verbatim>\<open>typeof e.message === "string"\<close> with
  message \<open>m\<close>. Every value fetchJSON throws is an Error with a message;
  \<^verbatim>\<open>body || res.statusText\<close> takes the status text for an empty body.
\<close>

definition fetchJSON :: "'a fetch_outcome \<Rightarrow> string option + 'a" where
  "fetchJSON outcome =
     (case outcome of
        Rejected m \<Rightarrow> Inl (Some m)
      | NotOk body statusText \<Rightarrow> Inl (Some (if body \<noteq> [] then body else statusText))
      | OkJson v \<Rightarrow> Inr v
      | OkBadJson m \<Rightarrow> Inl (Some m))"

text \<open>
  \<^verbatim>\<open>typeof e?.message === "string" ? e.message : fallback\<close> in the handlers' catch blocks.
\<close>

definition error_message :: "string option \<Rightarrow> string \<Rightarrow> string" where
  "error_message e fallback = (case e of Some m \<Rightarrow> m | None \<Rightarrow> fallback)"

section \<open>components/ProductsPage.tsx: the state and its handlers\<close>

text \<open>The \<^verbatim>\<open>useState\<close> cells of the first page version, with their initial values.\<close>

record page =
  userId :: "string option"
  products :: "Product list"
  loadingProducts :: bool
  reservations :: "Reservation list"
  loadingReservations :: bool
  selectedProductId :: "string option"
  quantity :: jsnum
  submitting :: bool
  paymentModalReservation :: "Reservation option"
  completing :: bool
  toasts :: "Toast list"
  toastCounter :: int

definition page0 :: page where
  "page0 = \<lparr>userId = None, products = [], loadingProducts = True, reservations = [],
            loadingReservations = True, selectedProductId = None, quantity = Fin 1,
            submitting = False, paymentModalReservation = None, completing = False,
            toasts = [], toastCounter = 0\<rparr>"

text \<open>The requests a handler sends; the body of \<^verbatim>\<open>POST /reservations\<close> as JSON.\<close>

record reserve_body =
  b_productId :: string
  b_quantity :: "rat option"
  b_userId :: string

datatype request =
    GET_products
  | GET_reservations_user string
  | POST_reservations reserve_body
  | POST_complete string
  | POST_cancel string
  | POST_reset

text \<open>The two characters outside ASCII in the toast messages, in UTF-8.\<close>

definition en_dash :: string where
  "en_dash = [CHR 0xE2, CHR 0x80, CHR 0x93]"

definition times_sign :: string where
  "times_sign = [CHR 0xC3, CHR 0x97]"

text \<open>
  A handler runs with the values of the render in which it was created: \<open>c\<close> is the
  \<^verbatim>\<open>toastCounter\<close> that \<^verbatim>\<open>addToast\<close> closed over, while \<^verbatim>\<open>setToastCounter\<close> and
  \<^verbatim>\<open>setToasts\<close> update the current state. The removal after three seconds is
  \<open>toastTimeout\<close>.
\<close>

definition addToast :: "int \<Rightarrow> ToastType \<Rightarrow> string \<Rightarrow> page \<Rightarrow> page" where
  "addToast c ty msg s =
     (let newId = c + 1;
          toast = \<lparr>t_id = newId, t_type = ty, t_message = msg\<rparr>
      in s\<lparr>toastCounter := toastCounter s + 1, toasts := toasts s @ [toast]\<rparr>)"

definition toastTimeout :: "int \<Rightarrow> page \<Rightarrow> page" where
  "toastTimeout newId s = s\<lparr>toasts := filter (\<lambda>t. t_id t \<noteq> newId) (toasts s)\<rparr>"

text \<open>
  \<open>reloadAll\<close>: \<open>uid\<close> and \<open>c\<close> are the closed-over \<^verbatim>\<open>userId\<close> and counter; \<open>pr\<close> and \<open>rr\<close>
  are what the network does with the two requests of \<^verbatim>\<open>Promise.all\<close>.
\<close>

definition reloadAll ::
  "string option \<Rightarrow> int \<Rightarrow> Product list fetch_outcome \<Rightarrow> Reservation list fetch_outcome \<Rightarrow>
   page \<Rightarrow> page \<times> request list" where
  "reloadAll uid c pr rr s =
     (if falsy uid then (s, [])
      else
        let s1 = s\<lparr>loadingProducts := True, loadingReservations := True\<rparr>;
            s2 = (case fetchJSON pr of
                    Inl e \<Rightarrow> addToast c ToastError ''Failed to load data.'' s1
                  | Inr productsData \<Rightarrow>
                      (case fetchJSON rr of
                         Inl e \<Rightarrow> addToast c ToastError ''Failed to load data.'' s1
                       | Inr reservationsData \<Rightarrow>
                           s1\<lparr>products := productsData,
                              reservations :=
                                map (\<lambda>r. r\<lparr>r_product :=
                                       (case r_product r of
                                          Some p \<Rightarrow> Some p
                                        | None \<Rightarrow> find (\<lambda>p. p_id p = r_productId r) productsData)\<rparr>)
                                  reservationsData\<rparr>))
        in (s2\<lparr>loadingProducts := False, loadingReservations := False\<rparr>,
            [GET_products, GET_reservations_user (the uid)]))"

definition handleTimerElapsed ::
  "Product list fetch_outcome \<Rightarrow> Reservation list fetch_outcome \<Rightarrow> page \<Rightarrow> page \<times> request list" where
  "handleTimerElapsed pr rr s =
     (case reloadAll (userId s) (toastCounter s) pr rr s of
        (s1, reqs) \<Rightarrow>
          (addToast (toastCounter s) ToastInfo
             (''Reservations synced '' @ en_dash @ '' some may have expired and stock was released.'')
             s1,
           reqs))"

definition selectedProduct :: "page \<Rightarrow> Product option" where
  "selectedProduct s = find (\<lambda>p. Some (p_id p) = selectedProductId s) (products s)"

text \<open>
  \<open>handleReserve\<close>. \<open>String_number\<close> is \<^verbatim>\<open>String(n)\<close> of the template literals (the
  platform's number formatting), \<open>post\<close> what the network does with the POST, \<open>pr\<close> and
  \<open>rr\<close> with the reload's requests.
\<close>

definition handleReserve ::
  "(jsnum \<Rightarrow> string) \<Rightarrow> Reservation fetch_outcome \<Rightarrow> Product list fetch_outcome \<Rightarrow>
   Reservation list fetch_outcome \<Rightarrow> page \<Rightarrow> page \<times> request list" where
  "handleReserve String_number post pr rr s =
     (if falsy (userId s) then
        (addToast (toastCounter s) ToastError
           ''User not initialized yet, please wait a moment.'' s, [])
      else
        (case selectedProduct s of
           None \<Rightarrow> (addToast (toastCounter s) ToastError ''Please select a product first.'' s, [])
         | Some sp \<Rightarrow>
             if js_le (quantity s) (Fin 0) then
               (addToast (toastCounter s) ToastError ''Quantity must be at least 1.'' s, [])
             else
               let s1 = s\<lparr>submitting := True\<rparr>;
                   req = POST_reservations
                           \<lparr>b_productId = p_id sp, b_quantity = JSON_number (quantity s),
                            b_userId = the (userId s)\<rparr>
               in (case fetchJSON post of
                     Inr res \<Rightarrow>
                       (case reloadAll (userId s) (toastCounter s) pr rr
                               (addToast (toastCounter s) ToastSuccess
                                  (''Reserved '' @ String_number (r_quantity res) @ '' '' @ times_sign
                                     @ '' '' @ p_name sp @ '' (total for this product) for 2 minutes.'')
                                  s1) of
                          (s2, reqs) \<Rightarrow> (s2\<lparr>submitting := False\<rparr>, req # reqs))
                   | Inl e \<Rightarrow>
                       let msg = error_message e ''Failed to create reservation.'';
                           s2 = (if includes_str msg ''Not enough stock''
                                 then addToast (toastCounter s) ToastError
                                        ''Cannot reserve more than available stock.'' s1
                                 else addToast (toastCounter s) ToastError msg s1)
                       in (s2\<lparr>submitting := False\<rparr>, [req]))))"

definition openPaymentModal :: "Reservation \<Rightarrow> page \<Rightarrow> page" where
  "openPaymentModal r s =
     (if r_status r \<noteq> ACTIVE then s else s\<lparr>paymentModalReservation := Some r\<rparr>)"

text \<open>
  \<^verbatim>\<open>r.product?.name ?? products.find((p) => p.id === r.productId)?.name ?? "product"\<close>
\<close>

definition productName :: "Reservation \<Rightarrow> Product list \<Rightarrow> string" where
  "productName r ps =
     (case r_product r of
        Some p \<Rightarrow> p_name p
      | None \<Rightarrow> (case find (\<lambda>p. p_id p = r_productId r) ps of
                   Some p \<Rightarrow> p_name p
                 | None \<Rightarrow> ''product''))"

definition handleConfirmPayment ::
  "(jsnum \<Rightarrow> string) \<Rightarrow> Reservation fetch_outcome \<Rightarrow> Product list fetch_outcome \<Rightarrow>
   Reservation list fetch_outcome \<Rightarrow> page \<Rightarrow> page \<times> request list" where
  "handleConfirmPayment String_number outcome pr rr s =
     (case paymentModalReservation s of
        None \<Rightarrow> (s, [])
      | Some m \<Rightarrow>
          let s1 = s\<lparr>completing := True\<rparr>;
              req = POST_complete (r_id m)
          in (case fetchJSON outcome of
                Inr res \<Rightarrow>
                  (case reloadAll (userId s) (toastCounter s) pr rr
                          ((addToast (toastCounter s) ToastSuccess
                              (''Purchase completed for '' @ String_number (r_quantity m) @ '' ''
                                 @ times_sign @ '' '' @ productName m (products s) @ ''.'')
                              s1)\<lparr>paymentModalReservation := None\<rparr>) of
                     (s2, reqs) \<Rightarrow> (s2\<lparr>completing := False\<rparr>, req # reqs))
              | Inl e \<Rightarrow>
                  let msg = error_message e ''Failed to complete purchase.'';
                      s2 = (if includes_str msg ''already expired''
                            then addToast (toastCounter s) ToastError
                                   (''Reservation already expired '' @ en_dash
                                      @ '' stock has been released.'') s1
                            else addToast (toastCounter s) ToastError msg s1)
                  in (s2\<lparr>completing := False\<rparr>, [req])))"

definition handleReleaseReservation ::
  "(jsnum \<Rightarrow> string) \<Rightarrow> Reservation \<Rightarrow> Reservation fetch_outcome \<Rightarrow> Product list fetch_outcome \<Rightarrow>
   Reservation list fetch_outcome \<Rightarrow> page \<Rightarrow> page \<times> request list" where
  "handleReleaseReservation String_number r outcome pr rr s =
     (let req = POST_cancel (r_id r)
      in (case fetchJSON outcome of
            Inr res \<Rightarrow>
              (case reloadAll (userId s) (toastCounter s) pr rr
                      (addToast (toastCounter s) ToastInfo
                         (''Released hold for '' @ String_number (r_quantity r) @ '' '' @ times_sign
                            @ '' '' @ productName r (products s) @ ''. Stock restored.'')
                         s) of
                 (s2, reqs) \<Rightarrow> (s2, req # reqs))
          | Inl e \<Rightarrow>
              (addToast (toastCounter s) ToastError
                 (error_message e ''Failed to release reservation.'') s,
               [req])))"

definition clearSelection :: "page \<Rightarrow> page" where
  "clearSelection s = s\<lparr>selectedProductId := None, quantity := Fin 1\<rparr>"

text \<open>\<open>ok\<close> is the answer to \<^verbatim>\<open>window.confirm\<close>.\<close>

definition handleResetDatabase ::
  "bool \<Rightarrow> unit fetch_outcome \<Rightarrow> Product list fetch_outcome \<Rightarrow> Reservation list fetch_outcome \<Rightarrow>
   page \<Rightarrow> page \<times> request list" where
  "handleResetDatabase ok outcome pr rr s =
     (if \<not> ok then (s, [])
      else
        let s1 = s\<lparr>loadingProducts := True, loadingReservations := True\<rparr>
        in (case fetchJSON outcome of
              Inr res \<Rightarrow>
                (case reloadAll (userId s) (toastCounter s) pr rr
                        (addToast (toastCounter s) ToastSuccess
                           ''Database reset to default demo data.'' s1) of
                   (s2, reqs) \<Rightarrow>
                     ((clearSelection s2)\<lparr>loadingProducts := False, loadingReservations := False\<rparr>,
                      POST_reset # reqs))
            | Inl e \<Rightarrow>
                ((addToast (toastCounter s) ToastError
                    (error_message e ''Failed to reset database.'') s1)
                   \<lparr>loadingProducts := False, loadingReservations := False\<rparr>,
                 [POST_reset])))"

text \<open>
  The handlers written inline in the JSX: the product card
  (\<^verbatim>\<open>!isOut && setSelectedProductId(p.id)\<close>), the quantity input, where \<open>n\<close> is
  \<^verbatim>\<open>Number(e.target.value)\<close>, and the modal's close button. \<open>mountUserId\<close> is the mount
  effect, with the id \<^verbatim>\<open>getOrCreateUserId()\<close> returned.
\<close>

definition selectProduct :: "Product \<Rightarrow> page \<Rightarrow> page" where
  "selectProduct p s =
     (if js_le (p_availableStock p) (Fin 0) then s else s\<lparr>selectedProductId := Some (p_id p)\<rparr>)"

definition onQuantityChange :: "jsnum \<Rightarrow> page \<Rightarrow> page" where
  "onQuantityChange n s = s\<lparr>quantity := Math_max (Fin 1) n\<rparr>"

definition closePaymentModal :: "page \<Rightarrow> page" where
  "closePaymentModal s = s\<lparr>paymentModalReservation := None\<rparr>"

definition mountUserId :: "string \<Rightarrow> page \<Rightarrow> page" where
  "mountUserId uid s = s\<lparr>userId := Some uid\<rparr>"

text \<open>
  Everything that updates the page's state, as events with what the environment
  supplies: the user's input and what the network does with each request. A handler
  is one step: the updates it makes across its awaits are applied in their order, and
  no other event is taken while it awaits. The conditional rendering and the disabled
  buttons of the JSX only take events away, so every sequence of handler calls the
  page can make is a run of these events.
\<close>

datatype event =
    Mount string
  | ReloadAll "Product list fetch_outcome" "Reservation list fetch_outcome"
  | ProductsUpdated "StockUpdate list"
  | TimerElapsed "Product list fetch_outcome" "Reservation list fetch_outcome"
  | ClickReserve "Reservation fetch_outcome" "Product list fetch_outcome"
      "Reservation list fetch_outcome"
  | ClickComplete Reservation
  | ConfirmPayment "Reservation fetch_outcome" "Product list fetch_outcome"
      "Reservation list fetch_outcome"
  | CloseModal
  | ClickRelease Reservation "Reservation fetch_outcome" "Product list fetch_outcome"
      "Reservation list fetch_outcome"
  | ClearSelection
  | ResetDatabase bool "unit fetch_outcome" "Product list fetch_outcome"
      "Reservation list fetch_outcome"
  | SelectProduct Product
  | ChangeQuantity jsnum
  | ToastTimeout int

fun step :: "(jsnum \<Rightarrow> string) \<Rightarrow> event \<Rightarrow> page \<Rightarrow> page \<times> request list" where
  "step S (Mount uid) s = (mountUserId uid s, [])"
| "step S (ReloadAll pr rr) s = reloadAll (userId s) (toastCounter s) pr rr s"
| "step S (ProductsUpdated updates) s = (s\<lparr>products := handleProductsUpdated updates (products s)\<rparr>, [])"
| "step S (TimerElapsed pr rr) s = handleTimerElapsed pr rr s"
| "step S (ClickReserve post pr rr) s = handleReserve S post pr rr s"
| "step S (ClickComplete r) s = (openPaymentModal r s, [])"
| "step S (ConfirmPayment outcome pr rr) s = handleConfirmPayment S outcome pr rr s"
| "step S CloseModal s = (closePaymentModal s, [])"
| "step S (ClickRelease r outcome pr rr) s = handleReleaseReservation S r outcome pr rr s"
| "step S ClearSelection s = (clearSelection s, [])"
| "step S (ResetDatabase ok outcome pr rr) s = handleResetDatabase ok outcome pr rr s"
| "step S (SelectProduct p) s = (selectProduct p s, [])"
| "step S (ChangeQuantity n) s = (onQuantityChange n s, [])"
| "step S (ToastTimeout newId) s = (toastTimeout newId s, [])"

text \<open>A run of the page: the state after the events, and the requests sent so far.\<close>

fun run :: "(jsnum \<Rightarrow> string) \<Rightarrow> event list \<Rightarrow> page \<times> request list \<Rightarrow> page \<times> request list" where
  "run S [] st = st"
| "run S (e # es) st =
     (case step S e (fst st) of (s1, reqs) \<Rightarrow> run S es (s1, snd st @ reqs))"

section \<open>lib/user.ts: the anonymous user id\<close>

text \<open>
  A Web Storage area: its items, and whether reading and writing it succeed
  (\<^verbatim>\<open>getItem\<close> and \<^verbatim>\<open>setItem\<close> throw when the browser denies access or the quota is
  exceeded).
\<close>

record storage =
  items :: "string \<Rightarrow> string option"
  readable :: bool
  writable :: bool


definition setItem :: "string \<Rightarrow> string \<Rightarrow> storage \<Rightarrow> js_exn + storage" where
  "setItem k v st =
     (if writable st then Inr (st\<lparr>items := (items st)(k \<mapsto> v)\<rparr>) else Inl QuotaExceededError)"

text \<open>
  The browser: whether \<^verbatim>\<open>window\<close> is defined, the two storage areas, the cookie jar
  (of a type \<open>'j\<close> the platform chooses) and \<open>drawn\<close>, the number of ids generated so
  far, which indexes the platform's source of randomness.
\<close>

record 'j browser =
  has_window :: bool
  localStorage :: storage
  sessionStorage :: storage
  jar :: 'j
  drawn :: nat

text \<open>
  What the platform supplies and the source does not define: the URI component
  coders (\<open>None\<close>: a URIError is thrown), the getter and the setter of
  \<^verbatim>\<open>document.cookie\<close> (\<open>None\<close>: the access throws), \<^verbatim>\<open>crypto.randomUUID\<close> when it exists,
  \<^verbatim>\<open>Math.random().toString(16).slice(2)\<close>, \<^verbatim>\<open>Date.now().toString(16)\<close> and the
  \<^verbatim>\<open>toUTCString()\<close> of the date \<open>days\<close> days from now.
\<close>

record 'j platform =
  encodeURIComponent :: "string \<Rightarrow> string option"
  decodeURIComponent :: "string \<Rightarrow> string option"
  cookie_getter :: "'j \<Rightarrow> string option"
  cookie_setter :: "string \<Rightarrow> 'j \<Rightarrow> 'j option"
  crypto_randomUUID :: "(nat \<Rightarrow> string) option"
  Math_random_hex :: "nat \<Rightarrow> string"
  Date_now_hex :: "nat \<Rightarrow> string"
  expires_UTCString :: "nat \<Rightarrow> nat \<Rightarrow> string"

subsection \<open>The version that uses localStorage only\<close>


subsection \<open>The version that syncs localStorage, sessionStorage and a cookie\<close>

definition STORAGE_KEY :: string where
  "STORAGE_KEY = ''flashSaleUserId''"

definition COOKIE_NAME :: string where
  "COOKIE_NAME = ''flash_sale_user_id''"

definition COOKIE_MAX_AGE_DAYS :: nat where
  "COOKIE_MAX_AGE_DAYS = 365"

definition isBrowser :: "'j browser \<Rightarrow> bool" where
  "isBrowser b = has_window b"


definition safeSetLocalStorage :: "string \<Rightarrow> 'j browser \<Rightarrow> 'j browser" where
  "safeSetLocalStorage v b =
     (if \<not> isBrowser b then b
      else (case setItem STORAGE_KEY v (localStorage b) of
              Inl e \<Rightarrow> b
            | Inr st \<Rightarrow> b\<lparr>localStorage := st\<rparr>))"


definition safeSetSessionStorage :: "string \<Rightarrow> 'j browser \<Rightarrow> 'j browser" where
  "safeSetSessionStorage v b =
     (if \<not> isBrowser b then b
      else (case setItem STORAGE_KEY v (sessionStorage b) of
              Inl e \<Rightarrow> b
            | Inr st \<Rightarrow> b\<lparr>sessionStorage := st\<rparr>))"

text \<open>
  \<^verbatim>\<open>s.split(c)\<close> for a one-character separator (never the empty list), and
  \<^verbatim>\<open>xs[1] ?? ''\<close>.
\<close>

fun split_char :: "char \<Rightarrow> string \<Rightarrow> string list" where
  "split_char c [] = [[]]"
| "split_char c (x # xs) =
     (if x = c then [] # split_char c xs
      else (case split_char c xs of
              [] \<Rightarrow> [[x]]
            | w # ws \<Rightarrow> (x # w) # ws))"






definition setCookie :: "'j platform \<Rightarrow> string \<Rightarrow> string \<Rightarrow> nat \<Rightarrow> 'j browser \<Rightarrow> 'j browser" where
  "setCookie P name v days b =
     (if \<not> isBrowser b then b
      else
        (case encodeURIComponent P v of
           None \<Rightarrow> b
         | Some encoded \<Rightarrow>
             (case cookie_setter P
                     (name @ ''='' @ encoded @ ''; '' @ ''expires='' @ expires_UTCString P (drawn b) days
                        @ ''; '' @ ''path=/'' @ ''; '' @ ''SameSite=Lax'')
                     (jar b) of
                None \<Rightarrow> b
              | Some j \<Rightarrow> b\<lparr>jar := j\<rparr>)))"





section \<open>The reservation engine of the specification\<close>

text \<open>
  The engine that serves the requests of the page is not part of this repository. It is
  modelled from sections 3, 4.1, 4.3, 5 and 7 of the specification. One operation is one
  atomic unit of work; operations that lock the same row are totally ordered by lock
  acquisition (section 5), so that requests issued concurrently take effect as a list,
  in the order in which they acquire the lock. Waiting for a lock is not bounded.
\<close>

text \<open>Modelled from the spec: the errors of section 7.\<close>

datatype engine_error = NotFound | InsufficientStock | InvalidState | Corruption

text \<open>
  Modelled from the spec: the Item of section 3, with the total stock it was created
  with, to which section 4.1 refers. The id is the key of the ledger; name and price
  are not behaviourally significant and are left out.
\<close>

record Item =
  totalQuantity :: int
  availableQuantity :: int

text \<open>
  Modelled from the spec: the Reservation of section 3. The id of a reservation is its
  position in the store; the auditing timestamps are left out.
\<close>

record reservation_row =
  row_actorId :: string
  row_itemId :: string
  row_quantity :: int
  row_status :: ReservationStatus
  row_expiresAt :: int

text \<open>Modelled from the spec: the two tables of section 6, Item and Reservation.\<close>

record engine =
  ledger :: "string \<rightharpoonup> Item"
  store :: "reservation_row list"

text \<open>
  Modelled from the spec: \<^verbatim>\<open>tryDeduct\<close> of section 4.1 fails if \<^verbatim>\<open>availableQuantity < quantity\<close>,
  otherwise decrements and returns the updated item.
\<close>

definition tryDeduct :: "Item \<Rightarrow> int \<Rightarrow> engine_error + Item" where
  "tryDeduct it q =
     (if availableQuantity it < q then Inl InsufficientStock
      else Inr (it\<lparr>availableQuantity := availableQuantity it - q\<rparr>))"

text \<open>
  Modelled from the spec: \<^verbatim>\<open>restore\<close> of section 4.1 increments \<^verbatim>\<open>availableQuantity\<close>; a
  restore that would exceed the original total stock is the fatal \<^verbatim>\<open>Corruption\<close> of
  section 7.
\<close>

definition restore :: "Item \<Rightarrow> int \<Rightarrow> engine_error + Item" where
  "restore it q =
     (if totalQuantity it < availableQuantity it + q then Inl Corruption
      else Inr (it\<lparr>availableQuantity := availableQuantity it + q\<rparr>))"

text \<open>
  Modelled from the spec: \<^verbatim>\<open>findActive(actorId, itemId)\<close> of section 4.2, the position of the
  actor's \<open>ACTIVE\<close> reservation for the item.
\<close>

definition findActive :: "string \<Rightarrow> string \<Rightarrow> reservation_row list \<Rightarrow> nat option" where
  "findActive actor item rows =
     find (\<lambda>i. row_actorId (rows ! i) = actor \<and> row_itemId (rows ! i) = item
                \<and> row_status (rows ! i) = ACTIVE) [0 ..< length rows]"

text \<open>
  Modelled from the spec: Create or Extend of section 4.3, steps 2 to 6: verify that the
  item exists and deduct the quantity; add the quantity to the actor's \<open>ACTIVE\<close>
  reservation for the item, or create one; reset the deadline of every \<open>ACTIVE\<close>
  reservation of the actor to \<^verbatim>\<open>now + TTL\<close>. A failure leaves the state as it is. The
  result is the reservation, with its id.
\<close>

definition createOrExtend ::
  "int \<Rightarrow> int \<Rightarrow> string \<Rightarrow> string \<Rightarrow> int \<Rightarrow> engine
   \<Rightarrow> engine_error + (nat \<times> reservation_row) \<times> engine" where
  "createOrExtend TTL now actor item q e =
     (case ledger e item of
        None \<Rightarrow> Inl NotFound
      | Some it \<Rightarrow>
          (case tryDeduct it q of
             Inl err \<Rightarrow> Inl err
           | Inr it' \<Rightarrow>
               let i = (case findActive actor item (store e) of
                          Some i \<Rightarrow> i | None \<Rightarrow> length (store e));
                   rows1 = (case findActive actor item (store e) of
                              Some i \<Rightarrow>
                                (store e)[i := (store e ! i)
                                   \<lparr>row_quantity := row_quantity (store e ! i) + q\<rparr>]
                            | None \<Rightarrow>
                                store e @ [\<lparr>row_actorId = actor, row_itemId = item,
                                            row_quantity = q, row_status = ACTIVE,
                                            row_expiresAt = now + TTL\<rparr>]);
                   rows2 = map (\<lambda>r. if row_actorId r = actor \<and> row_status r = ACTIVE
                                     then r\<lparr>row_expiresAt := now + TTL\<rparr> else r) rows1
               in Inr ((i, rows2 ! i), e\<lparr>ledger := (ledger e)(item \<mapsto> it'), store := rows2\<rparr>)))"

text \<open>
  Modelled from the spec: Complete of section 4.3. No stock is changed.
\<close>

definition completeReservation :: "nat \<Rightarrow> engine \<Rightarrow> engine_error + reservation_row \<times> engine" where
  "completeReservation i e =
     (if \<not> i < length (store e) then Inl NotFound
      else if row_status (store e ! i) \<noteq> ACTIVE then Inl InvalidState
      else Inr ((store e ! i)\<lparr>row_status := COMPLETED\<rparr>,
                e\<lparr>store := (store e)[i := (store e ! i)\<lparr>row_status := COMPLETED\<rparr>]\<rparr>))"

text \<open>
  Modelled from the spec: Cancel of section 4.3. A reservation that is not \<open>ACTIVE\<close> is
  returned unchanged; otherwise its quantity is restored to the item and it becomes
  \<open>EXPIRED\<close> with \<^verbatim>\<open>expiresAt = now\<close>.
\<close>

definition cancelReservation :: "int \<Rightarrow> nat \<Rightarrow> engine \<Rightarrow> engine_error + reservation_row \<times> engine" where
  "cancelReservation now i e =
     (if \<not> i < length (store e) then Inl NotFound
      else if row_status (store e ! i) \<noteq> ACTIVE then Inr (store e ! i, e)
      else
        (case ledger e (row_itemId (store e ! i)) of
           None \<Rightarrow> Inl NotFound
         | Some it \<Rightarrow>
             (case restore it (row_quantity (store e ! i)) of
                Inl err \<Rightarrow> Inl err
              | Inr it' \<Rightarrow>
                  Inr ((store e ! i)\<lparr>row_status := EXPIRED, row_expiresAt := now\<rparr>,
                       e\<lparr>ledger := (ledger e)(row_itemId (store e ! i) \<mapsto> it'),
                         store := (store e)[i := (store e ! i)
                                     \<lparr>row_status := EXPIRED, row_expiresAt := now\<rparr>]\<rparr>))))"

text \<open>
  Modelled from the spec: Expire of section 4.3, with the reservation id and the
  expected deadline. The deadline that counts is the one read under the lock: the
  reservation is expired, and its stock restored, if it is \<open>ACTIVE\<close> and
  \<^verbatim>\<open>expiresAt <= now\<close>; otherwise nothing happens.
\<close>

definition expireReservation :: "int \<Rightarrow> nat \<Rightarrow> int \<Rightarrow> engine \<Rightarrow> engine_error + engine" where
  "expireReservation now i expected e =
     (if \<not> i < length (store e) then Inl NotFound
      else if \<not> (row_status (store e ! i) = ACTIVE \<and> row_expiresAt (store e ! i) \<le> now) then Inr e
      else
        (case ledger e (row_itemId (store e ! i)) of
           None \<Rightarrow> Inl NotFound
         | Some it \<Rightarrow>
             (case restore it (row_quantity (store e ! i)) of
                Inl err \<Rightarrow> Inl err
              | Inr it' \<Rightarrow>
                  Inr (e\<lparr>ledger := (ledger e)(row_itemId (store e ! i) \<mapsto> it'),
                         store := (store e)[i := (store e ! i)\<lparr>row_status := EXPIRED\<rparr>]\<rparr>))))"

text \<open>
  Modelled from the spec: the operations of section 5, each with the time at which it
  holds its lock, and a sequence of them in the order of lock acquisition. An operation
  gives its error, if it fails, and the state after it; a failed operation changes
  nothing.
\<close>

datatype engine_op =
    OpCreateOrExtend int string string int
  | OpComplete nat
  | OpCancel int nat
  | OpExpire int nat int

fun exec_op :: "int \<Rightarrow> engine_op \<Rightarrow> engine \<Rightarrow> engine_error option \<times> engine" where
  "exec_op TTL (OpCreateOrExtend now actor item q) e =
     (case createOrExtend TTL now actor item q e of
        Inl err \<Rightarrow> (Some err, e) | Inr (r, e') \<Rightarrow> (None, e'))"
| "exec_op TTL (OpComplete i) e =
     (case completeReservation i e of Inl err \<Rightarrow> (Some err, e) | Inr (r, e') \<Rightarrow> (None, e'))"
| "exec_op TTL (OpCancel now i) e =
     (case cancelReservation now i e of Inl err \<Rightarrow> (Some err, e) | Inr (r, e') \<Rightarrow> (None, e'))"
| "exec_op TTL (OpExpire now i expected) e =
     (case expireReservation now i expected e of Inl err \<Rightarrow> (Some err, e) | Inr e' \<Rightarrow> (None, e'))"

fun run_ops :: "int \<Rightarrow> engine_op list \<Rightarrow> engine \<Rightarrow> engine_error option list \<times> engine" where
  "run_ops TTL [] e = ([], e)"
| "run_ops TTL (op # ops) e =
     (case exec_op TTL op e of
        (outcome, e1) \<Rightarrow>
          (case run_ops TTL ops e1 of (outcomes, e2) \<Rightarrow> (outcome # outcomes, e2)))"

section \<open>Predicates of the statements, auxiliary functions of the proofs, example inputs\<close>

text \<open>
  The payment modal holds nothing, or a reservation whose recorded status is
  \<open>ACTIVE\<close>.
\<close>

definition modal_holds_active :: "page \<Rightarrow> bool" where
  "modal_holds_active s =
     (case paymentModalReservation s of None \<Rightarrow> True | Some m \<Rightarrow> r_status m = ACTIVE)"

text \<open>The quantity is a finite number, at least 1.\<close>

definition quantity_ok :: "jsnum \<Rightarrow> bool" where
  "quantity_ok q = (\<exists>x. q = Fin x \<and> 1 \<le> x)"

text \<open>
  The entries of the \<^verbatim>\<open>Map\<close> built from a product list, one update applied to one
  product, and all updates applied to one product (the last update for its id wins).
\<close>

definition entries :: "Product list \<Rightarrow> (string \<times> Product) list" where
  "entries ps = map (\<lambda>p. (p_id p, p)) ps"

definition patch :: "StockUpdate \<Rightarrow> Product \<Rightarrow> Product" where
  "patch u p = (if p_id p = u_id u then p\<lparr>p_availableStock := u_availableStock u\<rparr> else p)"

definition patched :: "StockUpdate list \<Rightarrow> Product \<Rightarrow> Product" where
  "patched us p = (case find (\<lambda>u. u_id u = p_id p) (rev us) of
                     None \<Rightarrow> p | Some u \<Rightarrow> p\<lparr>p_availableStock := u_availableStock u\<rparr>)"

text \<open>The three writes that end the multi-store \<^verbatim>\<open>getOrCreateUserId\<close>.\<close>

definition synced :: "'j platform \<Rightarrow> string \<Rightarrow> 'j browser \<Rightarrow> 'j browser" where
  "synced P i b = setCookie P COOKIE_NAME i COOKIE_MAX_AGE_DAYS
                    (safeSetSessionStorage i (safeSetLocalStorage i b))"








text \<open>
  Modelled from the spec: the sum of the quantities of the \<open>ACTIVE\<close> reservations on an
  item, and the conservation law of sections 3 and 8 for an item of total stock \<open>N\<close>.
\<close>

definition held :: "engine \<Rightarrow> string \<Rightarrow> int" where
  "held e x =
     sum_list (map row_quantity
       (filter (\<lambda>r. row_itemId r = x \<and> row_status r = ACTIVE) (store e)))"

definition conserved :: "int \<Rightarrow> string \<Rightarrow> engine \<Rightarrow> bool" where
  "conserved N x e =
     (case ledger e x of
        None \<Rightarrow> False
      | Some it \<Rightarrow> 0 \<le> availableQuantity it \<and> availableQuantity it + held e x = N)"

text \<open>
  Modelled from the spec: the operations of the conservation property of section 8,
  Create or Extend with a quantity above 0, Cancel and Expire.
\<close>

fun holds_or_releases :: "engine_op \<Rightarrow> bool" where
  "holds_or_releases (OpCreateOrExtend now actor item q) = (0 < q)"
| "holds_or_releases (OpComplete i) = False"
| "holds_or_releases (OpCancel now i) = True"
| "holds_or_releases (OpExpire now i expected) = True"

text \<open>
  What a row of the store counts for an item, and the invariant of the proofs: the
  conservation law, with no row counting a negative quantity.
\<close>

definition on_item :: "string \<Rightarrow> reservation_row \<Rightarrow> int" where
  "on_item x r = (if row_itemId r = x \<and> row_status r = ACTIVE then row_quantity r else 0)"

definition engine_inv :: "int \<Rightarrow> string \<Rightarrow> engine \<Rightarrow> bool" where
  "engine_inv N x e = (conserved N x e \<and> (\<forall>r\<in>set (store e). 0 \<le> on_item x r))"

subsection \<open>Example inputs\<close>

definition pA :: Product where
  "pA = \<lparr>p_id = ''a'', p_name = ''Serum'', p_price = PriceString ''19.99'', p_availableStock = Fin 5\<rparr>"

definition pB :: Product where
  "pB = \<lparr>p_id = ''b'', p_name = ''Balm'', p_price = PriceNumber (Fin 7), p_availableStock = Fin 3\<rparr>"

text \<open>A second product that carries the id of \<open>pA\<close>.\<close>

definition pA2 :: Product where
  "pA2 = \<lparr>p_id = ''a'', p_name = ''Mask'', p_price = PriceString ''4.50'', p_availableStock = Fin 9\<rparr>"

definition res_active :: Reservation where
  "res_active = \<lparr>r_id = ''r1'', r_productId = ''a'', r_quantity = Fin 2, r_status = ACTIVE,
      r_expiresAt = ''2025-01-01T00:02:00.000Z'', r_createdAt = ''2025-01-01T00:00:00.000Z'',
      r_product = None\<rparr>"

definition res_active2 :: Reservation where
  "res_active2 = \<lparr>r_id = ''r2'', r_productId = ''b'', r_quantity = Fin 1, r_status = ACTIVE,
      r_expiresAt = ''2025-01-01T00:02:00.000Z'', r_createdAt = ''2025-01-01T00:00:30.000Z'',
      r_product = None\<rparr>"

definition res_expired :: Reservation where
  "res_expired = \<lparr>r_id = ''r0'', r_productId = ''b'', r_quantity = Fin 4, r_status = EXPIRED,
      r_expiresAt = ''2024-12-31T23:00:00.000Z'', r_createdAt = ''2024-12-31T22:58:00.000Z'',
      r_product = None\<rparr>"

definition demo_getTime :: "string \<Rightarrow> timeval" where
  "demo_getTime s =
     (if s = ''2025-01-01T00:02:00.000Z'' then Some 1735689720000
      else if s = ''2025-01-01T00:00:00.000Z'' then Some 1735689600000
      else if s = ''2024-12-31T23:00:00.000Z'' then Some 1735686000000
      else None)"

definition demo_toISOString :: "int \<Rightarrow> string" where
  "demo_toISOString t =
     (if t = 1735689720000 then ''2025-01-01T00:02:00.000Z''
      else if t = 1735689600000 then ''2025-01-01T00:00:00.000Z''
      else ''2024-12-31T23:00:00.000Z'')"

definition demo_String :: "jsnum \<Rightarrow> string" where
  "demo_String n = (case n of Fin x \<Rightarrow> (if x = 2 then ''2'' else ''1'') | _ \<Rightarrow> ''NaN'')"

definition page_ready :: page where
  "page_ready = page0\<lparr>userId := Some ''u1'', products := [pA, pB], loadingProducts := False,
      loadingReservations := False, selectedProductId := Some ''a'', quantity := Fin 2\<rparr>"









text \<open>
  An engine with one item \<open>X\<close> of total stock 5 and no reservation; three requests for 2
  of \<open>X\<close> each, in the order in which they acquire the lock; and the scenario of section
  8 of the specification.
\<close>

definition engine0 :: engine where
  "engine0 = \<lparr>ledger = [''X'' \<mapsto> \<lparr>totalQuantity = 5, availableQuantity = 5\<rparr>], store = []\<rparr>"

definition three_requests :: "engine_op list" where
  "three_requests = [OpCreateOrExtend 1000 ''u1'' ''X'' 2, OpCreateOrExtend 1000 ''u2'' ''X'' 2,
                     OpCreateOrExtend 1001 ''u3'' ''X'' 2]"

definition scenario :: "engine_op list" where
  "scenario = [OpCreateOrExtend 1000 ''u1'' ''X'' 3, OpCreateOrExtend 2000 ''u2'' ''X'' 3,
               OpCreateOrExtend 3000 ''u1'' ''X'' 2, OpCancel 4000 0]"

declare String_nat.simps [simp del]

section \<open>Auxiliary lemmas\<close>

subsection \<open>The timer\<close>

lemma tick_fst: "fst (tick cb target now st) = Some (case target of None \<Rightarrow> 0 | Some t \<Rightarrow> max (t - now) 0)"
  by (auto simp: tick_def Let_def gt0_def time_minus_def split: option.splits)

lemma tick_remainingMs: "remainingMs (snd (tick cb target now st)) = fst (tick cb target now st)"
  by (auto simp: tick_def Let_def)

lemma foldl_tick_last:
  "nows \<noteq> [] \<Longrightarrow>
   fst (foldl (\<lambda>st now. tick cb target now st) st nows)
     = Some (case target of None \<Rightarrow> 0 | Some t \<Rightarrow> max (t - last nows) 0) \<and>
   remainingMs (snd (foldl (\<lambda>st now. tick cb target now st) st nows))
     = Some (case target of None \<Rightarrow> 0 | Some t \<Rightarrow> max (t - last nows) 0)"
proof (induction nows rule: rev_induct)
  case Nil
  then show ?case by simp
next
  case (snoc x xs)
  show ?case by (simp add: tick_fst tick_remainingMs split: option.splits)
qed

lemma useEffect_timer_remaining:
  "\<not> falsy e \<Longrightarrow>
   remainingMs (useEffect_timer getTime e cb now0 now1 nows s)
     = Some (case getTime (the e) of None \<Rightarrow> 0 | Some t \<Rightarrow> max (t - last (now1 # nows)) 0)"
  unfolding useEffect_timer_def Let_def
  using foldl_tick_last [of "now1 # nows" cb "getTime (the e)"]
  by simp

lemma tick_calls_sorted:
  assumes "lst = Some (max (t - prev) 0)" "prev \<le> now" "now0 \<le> prev"
    "elapsedCalls s = c0 + (if cb \<and> now0 < t \<and> t \<le> prev then 1 else 0)"
  shows "fst (tick cb (Some t) now (lst, s)) = Some (max (t - now) 0) \<and>
         elapsedCalls (snd (tick cb (Some t) now (lst, s)))
           = c0 + (if cb \<and> now0 < t \<and> t \<le> now then 1 else 0)"
  using assms by (auto simp: tick_def Let_def gt0_def time_minus_def)

lemma foldl_tick_calls_sorted:
  assumes "sorted (prev # nows)" "now0 \<le> prev" "lst = Some (max (t - prev) 0)"
    "elapsedCalls s = c0 + (if cb \<and> now0 < t \<and> t \<le> prev then 1 else 0)"
  shows "elapsedCalls (snd (foldl (\<lambda>st now. tick cb (Some t) now st) (lst, s) nows))
           = c0 + (if cb \<and> now0 < t \<and> t \<le> last (prev # nows) then 1 else 0)"
  using assms
proof (induction nows arbitrary: prev lst s)
  case Nil
  then show ?case by simp
next
  case (Cons now nows)
  have step: "fst (tick cb (Some t) now (lst, s)) = Some (max (t - now) 0) \<and>
         elapsedCalls (snd (tick cb (Some t) now (lst, s)))
           = c0 + (if cb \<and> now0 < t \<and> t \<le> now then 1 else 0)"
    using Cons.prems by (intro tick_calls_sorted) auto
  have "elapsedCalls (snd (foldl (\<lambda>st now. tick cb (Some t) now st)
            (fst (tick cb (Some t) now (lst, s)), snd (tick cb (Some t) now (lst, s))) nows))
        = c0 + (if cb \<and> now0 < t \<and> t \<le> last (now # nows) then 1 else 0)"
    using Cons.prems step by (intro Cons.IH) auto
  then show ?case by simp
qed

lemma foldl_tick_calls_NaN:
  "elapsedCalls (snd (foldl (\<lambda>st now. tick cb None now st) (lst, s) nows)) =
     elapsedCalls s + (if gt0 lst \<and> cb \<and> nows \<noteq> [] then 1 else 0)"
proof (induction nows arbitrary: lst s)
  case Nil
  then show ?case by simp
next
  case (Cons now nows)
  have "tick cb None now (lst, s) = (Some 0, snd (tick cb None now (lst, s)))"
    by (simp add: tick_def Let_def gt0_def time_minus_def)
  moreover have "elapsedCalls (snd (tick cb None now (lst, s))) = elapsedCalls s + (if gt0 lst \<and> cb then 1 else 0)"
    by (simp add: tick_def Let_def gt0_def time_minus_def)
  ultimately show ?case using Cons.IH [of "Some 0" "snd (tick cb None now (lst, s))"]
    by (simp add: gt0_def)
qed

subsection \<open>The countdown target and the product patch\<close>

lemma foldl_time_max_same: "\<forall>x\<in>set ts. x = t \<Longrightarrow> foldl time_max t ts = t"
  by (induction ts) (auto simp: time_max_def split: option.splits)

lemma foldl_time_min_same: "\<forall>x\<in>set ts. x = t \<Longrightarrow> foldl time_min t ts = t"
  by (induction ts) (auto simp: time_min_def split: option.splits)

lemma Map_set_fresh: "k \<notin> fst ` set m \<Longrightarrow> Map_set k v m = m @ [(k, v)]"
  by (induction m) auto

lemma new_Map_distinct_aux:
  "distinct (map fst (m @ es)) \<Longrightarrow> foldl (\<lambda>m kv. Map_set (fst kv) (snd kv) m) m es = m @ es"
proof (induction es arbitrary: m)
  case Nil
  then show ?case by simp
next
  case (Cons kv es)
  have "fst kv \<notin> fst ` set m" using Cons.prems by auto
  then have "Map_set (fst kv) (snd kv) m = m @ [kv]" by (simp add: Map_set_fresh)
  moreover have "distinct (map fst ((m @ [kv]) @ es))" using Cons.prems by simp
  ultimately show ?case using Cons.IH [of "m @ [kv]"] by simp
qed

lemma new_Map_distinct: "distinct (map fst es) \<Longrightarrow> new_Map es = es"
  using new_Map_distinct_aux [of "[]" es] by (simp add: new_Map_def)

lemma patch_one_entries:
  "distinct (map p_id ps) \<Longrightarrow> patch_one (entries ps) u = entries (map (patch u) ps)"
proof (induction ps)
  case Nil
  then show ?case by (simp add: patch_one_def entries_def Map_get_def)
next
  case (Cons p ps)
  show ?case
  proof (cases "p_id p = u_id u")
    case True
    then have "u_id u \<notin> p_id ` set ps" using Cons.prems by auto
    then have tl: "map (patch u) ps = ps" by (induction ps) (auto simp: patch_def)
    have hd: "patch u p = p\<lparr>p_availableStock := u_availableStock u\<rparr>"
      using True by (simp add: patch_def)
    show ?thesis using True by (simp add: patch_one_def entries_def Map_get_def hd tl)
  next
    case False
    have ih: "patch_one (entries ps) u = entries (map (patch u) ps)" using Cons by simp
    have hd: "patch u p = p" using False by (simp add: patch_def)
    have "patch_one ((p_id p, p) # entries ps) u = (p_id p, p) # patch_one (entries ps) u"
      using False by (simp add: patch_one_def Map_get_def split: option.splits)
    then show ?thesis by (simp add: entries_def hd ih [unfolded entries_def])
  qed
qed

lemma map_patch_ids: "map p_id (map (patch u) ps) = map p_id ps"
  by (induction ps) (auto simp: patch_def)

lemma foldl_patch_one_entries:
  "distinct (map p_id ps) \<Longrightarrow>
   foldl patch_one (entries ps) us = entries (foldl (\<lambda>ps u. map (patch u) ps) ps us)"
proof (induction us arbitrary: ps)
  case Nil
  then show ?case by simp
next
  case (Cons u us)
  have "distinct (map p_id (map (patch u) ps))" using Cons.prems by (simp only: map_patch_ids)
  then show ?case using Cons.prems Cons.IH [of "map (patch u) ps"] by (simp add: patch_one_entries)
qed

lemma foldl_patch_closed: "foldl (\<lambda>ps u. map (patch u) ps) ps us = map (patched us) ps"
proof (induction us rule: rev_induct)
  case Nil
  then show ?case by (simp add: patched_def)
next
  case (snoc u us)
  have "patch u (patched us p) = patched (us @ [u]) p" for p
    by (auto simp: patch_def patched_def split: option.splits)
  then show ?case using snoc by simp
qed

lemma handleProductsUpdated_closed:
  "distinct (map p_id prev) \<Longrightarrow> handleProductsUpdated us prev = map (patched us) prev"
proof (cases "prev = []")
  case True
  then show ?thesis by (simp add: handleProductsUpdated_def)
next
  case False
  assume d: "distinct (map p_id prev)"
  have "distinct (map fst (map (\<lambda>p. (p_id p, p)) prev))" using d by (simp add: comp_def)
  then have nm: "new_Map (map (\<lambda>p. (p_id p, p)) prev) = entries prev"
    by (simp add: new_Map_distinct entries_def)
  have vals: "Map_values (entries xs) = xs" for xs
    by (simp add: Map_values_def entries_def comp_def)
  have "handleProductsUpdated us prev = Map_values (foldl patch_one (entries prev) us)"
    using False by (simp add: handleProductsUpdated_def nm)
  also have "\<dots> = Map_values (entries (foldl (\<lambda>ps u. map (patch u) ps) prev us))"
    using d by (simp only: foldl_patch_one_entries)
  also have "\<dots> = map (patched us) prev"
    by (simp only: vals foldl_patch_closed)
  finally show ?thesis .
qed

subsection \<open>The page handlers\<close>

lemma addToast_fields:
  "quantity (addToast c ty m s) = quantity s"
  "paymentModalReservation (addToast c ty m s) = paymentModalReservation s"
  "products (addToast c ty m s) = products s"
  "reservations (addToast c ty m s) = reservations s"
  "toasts (addToast c ty m s) = toasts s @ [\<lparr>t_id = c + 1, t_type = ty, t_message = m\<rparr>]"
  by (simp_all add: addToast_def Let_def)

lemma reloadAll_fields:
  "quantity (fst (reloadAll uid c pr rr s)) = quantity s"
  "paymentModalReservation (fst (reloadAll uid c pr rr s)) = paymentModalReservation s"
  by (simp_all add: reloadAll_def Let_def addToast_fields split: sum.splits)

lemma reloadAll_requests:
  "POST_reservations b \<notin> set (snd (reloadAll uid c pr rr s))"
  "POST_complete i \<notin> set (snd (reloadAll uid c pr rr s))"
  by (simp_all add: reloadAll_def Let_def)

lemma handleTimerElapsed_fields:
  "quantity (fst (handleTimerElapsed pr rr s)) = quantity s"
  "paymentModalReservation (fst (handleTimerElapsed pr rr s)) = paymentModalReservation s"
  "POST_reservations b \<notin> set (snd (handleTimerElapsed pr rr s))"
  "POST_complete i \<notin> set (snd (handleTimerElapsed pr rr s))"
  using reloadAll_fields [of "userId s" "toastCounter s" pr rr s]
    reloadAll_requests [of _ "userId s" "toastCounter s" pr rr s]
  by (simp_all add: handleTimerElapsed_def addToast_fields split_beta)

lemma handleReserve_fields:
  "quantity (fst (handleReserve S post pr rr s)) = quantity s"
  "paymentModalReservation (fst (handleReserve S post pr rr s)) = paymentModalReservation s"
  "POST_complete i \<notin> set (snd (handleReserve S post pr rr s))"
  by (simp_all add: handleReserve_def Let_def addToast_fields reloadAll_fields reloadAll_requests
        split_beta split: option.splits sum.splits)

lemma handleConfirmPayment_fields:
  "quantity (fst (handleConfirmPayment S outcome pr rr s)) = quantity s"
  "paymentModalReservation (fst (handleConfirmPayment S outcome pr rr s)) = None
   \<or> paymentModalReservation (fst (handleConfirmPayment S outcome pr rr s)) = paymentModalReservation s"
  "POST_reservations b \<notin> set (snd (handleConfirmPayment S outcome pr rr s))"
  "POST_complete i \<in> set (snd (handleConfirmPayment S outcome pr rr s)) \<Longrightarrow>
     \<exists>m. paymentModalReservation s = Some m \<and> r_id m = i"
  by (simp_all add: handleConfirmPayment_def Let_def addToast_fields reloadAll_fields reloadAll_requests
        split_beta split: option.splits sum.splits)

lemma handleReleaseReservation_fields:
  "quantity (fst (handleReleaseReservation S r outcome pr rr s)) = quantity s"
  "paymentModalReservation (fst (handleReleaseReservation S r outcome pr rr s)) = paymentModalReservation s"
  "POST_reservations b \<notin> set (snd (handleReleaseReservation S r outcome pr rr s))"
  "POST_complete i \<notin> set (snd (handleReleaseReservation S r outcome pr rr s))"
  by (simp_all add: handleReleaseReservation_def Let_def addToast_fields reloadAll_fields reloadAll_requests
        split_beta split: option.splits sum.splits)

lemma handleResetDatabase_fields:
  "quantity (fst (handleResetDatabase ok outcome pr rr s)) = quantity s
   \<or> quantity (fst (handleResetDatabase ok outcome pr rr s)) = Fin 1"
  "paymentModalReservation (fst (handleResetDatabase ok outcome pr rr s)) = paymentModalReservation s"
  "POST_reservations b \<notin> set (snd (handleResetDatabase ok outcome pr rr s))"
  "POST_complete i \<notin> set (snd (handleResetDatabase ok outcome pr rr s))"
  by (simp_all add: handleResetDatabase_def Let_def addToast_fields reloadAll_fields reloadAll_requests
        clearSelection_def split_beta split: option.splits sum.splits)

lemma Math_max_ok: "n \<noteq> NaN \<Longrightarrow> n \<noteq> PosInf \<Longrightarrow> quantity_ok (Math_max (Fin 1) n)"
  by (cases n) (auto simp: quantity_ok_def)

lemma handleReserve_body:
  "quantity_ok (quantity s) \<Longrightarrow> POST_reservations b \<in> set (snd (handleReserve S post pr rr s)) \<Longrightarrow>
   \<exists>q. b_quantity b = Some q \<and> 1 \<le> q"
  by (auto simp: handleReserve_def Let_def quantity_ok_def reloadAll_requests split_beta
        split: option.splits sum.splits if_splits)

lemma handleReserve_refuses:
  "js_le (quantity s) (Fin 0) \<Longrightarrow>
   snd (handleReserve S post pr rr s) = [] \<and>
   (\<exists>m. toasts (fst (handleReserve S post pr rr s))
          = toasts s @ [\<lparr>t_id = toastCounter s + 1, t_type = ToastError, t_message = m\<rparr>])"
  by (simp add: handleReserve_def addToast_fields split: option.splits)

lemma step_quantity:
  assumes "quantity_ok (quantity s)" "\<forall>n. e = ChangeQuantity n \<longrightarrow> n \<noteq> NaN \<and> n \<noteq> PosInf"
  shows "quantity_ok (quantity (fst (step S e s)))"
proof (cases e)
  case (ResetDatabase ok outcome pr rr)
  then show ?thesis
    using assms(1) handleResetDatabase_fields(1) [of ok outcome pr rr s]
    by (auto simp: quantity_ok_def)
next
  case (ChangeQuantity n)
  then show ?thesis using assms(2) by (simp add: onQuantityChange_def Math_max_ok)
next
  case ClearSelection
  then show ?thesis by (simp add: clearSelection_def quantity_ok_def)
qed (use assms(1) in \<open>simp_all add: mountUserId_def reloadAll_fields handleTimerElapsed_fields
      handleReserve_fields openPaymentModal_def handleConfirmPayment_fields closePaymentModal_def
      handleReleaseReservation_fields selectProduct_def toastTimeout_def\<close>)

lemma step_bodies:
  assumes "quantity_ok (quantity s)" "POST_reservations b \<in> set (snd (step S e s))"
  shows "\<exists>q. b_quantity b = Some q \<and> 1 \<le> q"
proof (cases e)
  case (ClickReserve post pr rr)
  then show ?thesis using assms handleReserve_body by simp
qed (use assms(2) in \<open>simp_all add: reloadAll_requests handleTimerElapsed_fields
      handleConfirmPayment_fields handleReleaseReservation_fields handleResetDatabase_fields\<close>)

lemma run_quantity:
  assumes "quantity_ok (quantity (fst st))"
    "\<forall>b. POST_reservations b \<in> set (snd st) \<longrightarrow> (\<exists>q. b_quantity b = Some q \<and> 1 \<le> q)"
    "\<forall>n. ChangeQuantity n \<in> set es \<longrightarrow> n \<noteq> NaN \<and> n \<noteq> PosInf"
  shows "quantity_ok (quantity (fst (run S es st))) \<and>
         (\<forall>b. POST_reservations b \<in> set (snd (run S es st)) \<longrightarrow> (\<exists>q. b_quantity b = Some q \<and> 1 \<le> q))"
  using assms
proof (induction es arbitrary: st)
  case Nil
  then show ?case by simp
next
  case (Cons e es)
  have q: "quantity_ok (quantity (fst (step S e (fst st))))"
    using Cons.prems(1,3) by (intro step_quantity) auto
  have b: "\<forall>b. POST_reservations b \<in> set (snd st @ snd (step S e (fst st)))
             \<longrightarrow> (\<exists>q. b_quantity b = Some q \<and> 1 \<le> q)"
    using Cons.prems(1,2) step_bodies [of "fst st" _ S e] by auto
  have "run S (e # es) st = run S es (fst (step S e (fst st)), snd st @ snd (step S e (fst st)))"
    by (simp add: split_beta)
  moreover have "quantity_ok (quantity (fst (run S es (fst (step S e (fst st)), snd st @ snd (step S e (fst st)))))) \<and>
         (\<forall>b. POST_reservations b \<in> set (snd (run S es (fst (step S e (fst st)), snd st @ snd (step S e (fst st)))))
             \<longrightarrow> (\<exists>q. b_quantity b = Some q \<and> 1 \<le> q))"
    using q b Cons.prems(3) by (intro Cons.IH) auto
  ultimately show ?case by simp
qed

lemma fetchJSON_failure_has_message: "fetchJSON outcome = Inl e \<Longrightarrow> \<exists>m. e = Some m"
  by (auto simp: fetchJSON_def split: fetch_outcome.splits)

lemma step_modal:
  assumes "modal_holds_active s"
  shows "modal_holds_active (fst (step S e s))"
proof (cases e)
  case (ConfirmPayment outcome pr rr)
  then show ?thesis
    using assms handleConfirmPayment_fields(2) [of S outcome pr rr s]
    by (auto simp: modal_holds_active_def)
next
  case (ClickComplete r)
  then show ?thesis using assms by (simp add: openPaymentModal_def modal_holds_active_def)
qed (use assms in \<open>simp_all add: modal_holds_active_def mountUserId_def reloadAll_fields
      handleTimerElapsed_fields handleReserve_fields closePaymentModal_def clearSelection_def
      handleReleaseReservation_fields handleResetDatabase_fields selectProduct_def toastTimeout_def
      onQuantityChange_def\<close>)

lemma run_modal:
  "modal_holds_active (fst st) \<Longrightarrow> modal_holds_active (fst (run S es st))"
proof (induction es arbitrary: st)
  case Nil
  then show ?case by simp
next
  case (Cons e es)
  have "modal_holds_active (fst (step S e (fst st)))" using Cons.prems by (rule step_modal)
  then have "modal_holds_active (fst (run S es (fst (step S e (fst st)), snd st @ snd (step S e (fst st)))))"
    by (intro Cons.IH) simp
  then show ?case by (simp add: split_beta)
qed

subsection \<open>The user id\<close>















lemma find_None_notin: "k \<notin> u_id ` set us \<Longrightarrow> find (\<lambda>u. u_id u = k) (rev us) = None"
  by (auto simp: find_None_iff)







subsection \<open>The cookie\<close>


lemma split_char_nonempty: "split_char c s \<noteq> []"
  by (induction s) (auto split: list.splits)



lemma split_char_other:
  "x \<noteq> c \<Longrightarrow> split_char c (x # s) = (x # hd (split_char c s)) # tl (split_char c s)"
  using split_char_nonempty [of c s] by (cases "split_char c s") auto
























subsection \<open>The reservation engine\<close>

lemma held_on_item: "held e x = (\<Sum>r\<leftarrow>store e. on_item x r)"
  by (simp add: held_def on_item_def sum_list_map_filter')

lemma sum_list_update_int:
  "i < length xs \<Longrightarrow>
   (\<Sum>r\<leftarrow>xs[i := y]. (f r :: int)) = (\<Sum>r\<leftarrow>xs. f r) - f (xs ! i) + f y"
proof (induction xs arbitrary: i)
  case Nil
  then show ?case by simp
next
  case (Cons a xs)
  then show ?case by (cases i) simp_all
qed

lemma findActive_Some:
  assumes "findActive actor item rows = Some i"
  shows "i < length rows \<and> row_actorId (rows ! i) = actor \<and> row_itemId (rows ! i) = item
         \<and> row_status (rows ! i) = ACTIVE"
  using assms unfolding findActive_def by (auto simp: find_Some_iff)

lemma on_item_reset:
  "on_item x (if row_actorId r = actor \<and> row_status r = ACTIVE then r\<lparr>row_expiresAt := t\<rparr> else r)
     = on_item x r"
  by (simp add: on_item_def)

lemma sum_reset:
  "(\<Sum>r\<leftarrow>map (\<lambda>r. if row_actorId r = actor \<and> row_status r = ACTIVE
                      then r\<lparr>row_expiresAt := t\<rparr> else r) rows. on_item x r)
     = (\<Sum>r\<leftarrow>rows. on_item x r)"
  by (simp add: comp_def on_item_reset)

lemma nonneg_reset:
  assumes "\<forall>r\<in>set rows. 0 \<le> on_item x r"
  shows "\<forall>r\<in>set (map (\<lambda>r. if row_actorId r = actor \<and> row_status r = ACTIVE
                              then r\<lparr>row_expiresAt := t\<rparr> else r) rows). 0 \<le> on_item x r"
proof
  fix r
  assume "r \<in> set (map (\<lambda>r. if row_actorId r = actor \<and> row_status r = ACTIVE
                              then r\<lparr>row_expiresAt := t\<rparr> else r) rows)"
  then obtain r0 where r0: "r0 \<in> set rows"
    and r: "r = (if row_actorId r0 = actor \<and> row_status r0 = ACTIVE then r0\<lparr>row_expiresAt := t\<rparr> else r0)"
    by auto
  have "on_item x r = on_item x r0" unfolding r by (rule on_item_reset)
  then show "0 \<le> on_item x r" using assms r0 by simp
qed

lemma nonneg_update:
  assumes "\<forall>r\<in>set rows. 0 \<le> on_item x r" "0 \<le> on_item x y"
  shows "\<forall>r\<in>set (rows[i := y]). 0 \<le> on_item x r"
proof
  fix r assume "r \<in> set (rows[i := y])"
  then have "r = y \<or> r \<in> set rows" using set_update_subset_insert [of rows i y] by blast
  then show "0 \<le> on_item x r" using assms by blast
qed

text \<open>The state after the rows and one item of the ledger have been written.\<close>

lemma engine_inv_write:
  assumes inv: "engine_inv N x e"
    and led: "ledger e y = Some it"
    and rows: "(\<Sum>r\<leftarrow>rows'. on_item x r) = held e x + (if y = x then d else 0)"
    and nonneg: "\<forall>r\<in>set rows'. 0 \<le> on_item x r"
    and avail: "y = x \<longrightarrow> d \<le> availableQuantity it"
  shows "engine_inv N x
           (e\<lparr>ledger := (ledger e)(y \<mapsto> it\<lparr>availableQuantity := availableQuantity it - d\<rparr>),
              store := rows'\<rparr>)"
proof (cases "y = x")
  case True
  have "0 \<le> availableQuantity it \<and> availableQuantity it + held e x = N"
    using inv led True by (simp add: engine_inv_def conserved_def)
  then show ?thesis
    using True rows nonneg avail by (simp add: engine_inv_def conserved_def held_on_item)
next
  case False
  then show ?thesis
    using inv rows nonneg
    by (simp add: engine_inv_def conserved_def held_on_item split: option.splits)
qed

lemma createOrExtend_inv:
  assumes inv: "engine_inv N x e" and q: "0 < q"
    and res: "createOrExtend TTL now actor y q e = Inr (r, e')"
  shows "engine_inv N x e'"
proof -
  obtain it where led: "ledger e y = Some it"
    using res by (cases "ledger e y") (simp_all add: createOrExtend_def)
  have enough: "q \<le> availableQuantity it"
    using res led by (simp add: createOrExtend_def tryDeduct_def split: if_splits)
  define reset :: "reservation_row \<Rightarrow> reservation_row" where "reset = (\<lambda>r. if row_actorId r = actor \<and> row_status r = ACTIVE
                                     then r\<lparr>row_expiresAt := now + TTL\<rparr> else r)"
  define rows1 where "rows1 = (case findActive actor y (store e) of
                              Some i \<Rightarrow>
                                (store e)[i := (store e ! i)
                                   \<lparr>row_quantity := row_quantity (store e ! i) + q\<rparr>]
                            | None \<Rightarrow>
                                store e @ [\<lparr>row_actorId = actor, row_itemId = y,
                                            row_quantity = q, row_status = ACTIVE,
                                            row_expiresAt = now + TTL\<rparr>])"
  have e': "e' = e\<lparr>ledger := (ledger e)(y \<mapsto> it\<lparr>availableQuantity := availableQuantity it - q\<rparr>),
                   store := map reset rows1\<rparr>"
    using res led enough
    by (simp add: createOrExtend_def tryDeduct_def Let_def reset_def rows1_def)
  have old: "\<forall>r\<in>set (store e). 0 \<le> on_item x r" using inv by (simp add: engine_inv_def)
  have sum1: "(\<Sum>r\<leftarrow>rows1. on_item x r) = held e x + (if y = x then q else 0)"
    and nn1: "\<forall>r\<in>set rows1. 0 \<le> on_item x r"
  proof -
    show "(\<Sum>r\<leftarrow>rows1. on_item x r) = held e x + (if y = x then q else 0)"
    proof (cases "findActive actor y (store e)")
      case None
      then show ?thesis by (simp add: rows1_def held_on_item on_item_def)
    next
      case (Some i)
      note f = findActive_Some [OF Some]
      have "(\<Sum>r\<leftarrow>(store e)[i := (store e ! i)\<lparr>row_quantity := row_quantity (store e ! i) + q\<rparr>]. on_item x r)
              = (\<Sum>r\<leftarrow>store e. on_item x r) - on_item x (store e ! i)
                  + on_item x ((store e ! i)\<lparr>row_quantity := row_quantity (store e ! i) + q\<rparr>)"
        using f by (intro sum_list_update_int) simp
      then show ?thesis using f by (simp add: rows1_def Some held_on_item on_item_def)
    qed
    show "\<forall>r\<in>set rows1. 0 \<le> on_item x r"
    proof (cases "findActive actor y (store e)")
      case None
      then show ?thesis using old q by (simp add: rows1_def on_item_def)
    next
      case (Some i)
      note f = findActive_Some [OF Some]
      have "0 \<le> on_item x (store e ! i)" using old f by simp
      then have "0 \<le> on_item x ((store e ! i)\<lparr>row_quantity := row_quantity (store e ! i) + q\<rparr>)"
        using q by (auto simp: on_item_def split: if_splits)
      then show ?thesis unfolding rows1_def Some option.case using old by (intro nonneg_update) 
    qed
  qed
  have sum2: "(\<Sum>r\<leftarrow>map reset rows1. on_item x r) = held e x + (if y = x then q else 0)"
    unfolding reset_def sum_reset by (rule sum1)
  have nn2: "\<forall>r\<in>set (map reset rows1). 0 \<le> on_item x r"
    unfolding reset_def using nn1 by (rule nonneg_reset)
  show ?thesis unfolding e' using inv led sum2 nn2 by (rule engine_inv_write) (use enough in simp)
qed

lemma release_inv:
  assumes inv: "engine_inv N x e"
    and i: "i < length (store e)"
    and active: "row_status (store e ! i) = ACTIVE"
    and led: "ledger e (row_itemId (store e ! i)) = Some it"
    and terminal: "row_status r' \<noteq> ACTIVE"
  shows "engine_inv N x
           (e\<lparr>ledger := (ledger e)(row_itemId (store e ! i) \<mapsto>
                          it\<lparr>availableQuantity := availableQuantity it + row_quantity (store e ! i)\<rparr>),
              store := (store e)[i := r']\<rparr>)"
proof -
  define y where "y = row_itemId (store e ! i)"
  define d where "d = - row_quantity (store e ! i)"
  have old: "\<forall>r\<in>set (store e). 0 \<le> on_item x r" using inv by (simp add: engine_inv_def)
  have zero: "on_item x r' = 0" using terminal by (simp add: on_item_def)
  have "(\<Sum>r\<leftarrow>(store e)[i := r']. on_item x r)
          = (\<Sum>r\<leftarrow>store e. on_item x r) - on_item x (store e ! i) + on_item x r'"
    using i by (rule sum_list_update_int)
  then have sum: "(\<Sum>r\<leftarrow>(store e)[i := r']. on_item x r) = held e x + (if y = x then d else 0)"
    using active terminal by (simp add: held_on_item on_item_def y_def d_def)
  have nn: "\<forall>r\<in>set ((store e)[i := r']). 0 \<le> on_item x r"
    using old by (rule nonneg_update) (simp add: zero)
  have row: "0 \<le> on_item x (store e ! i)" using old i by simp
  have av: "y = x \<longrightarrow> d \<le> availableQuantity it"
  proof
    assume yx: "y = x"
    then have "ledger e x = Some it" using led by (simp add: y_def)
    then have "0 \<le> availableQuantity it" using inv by (simp add: engine_inv_def conserved_def)
    moreover have "0 \<le> row_quantity (store e ! i)"
      using row active yx by (simp add: on_item_def y_def)
    ultimately show "d \<le> availableQuantity it" by (simp add: d_def)
  qed
  have "engine_inv N x
           (e\<lparr>ledger := (ledger e)(y \<mapsto> it\<lparr>availableQuantity := availableQuantity it - d\<rparr>),
              store := (store e)[i := r']\<rparr>)"
    using inv led [folded y_def] sum nn av by (rule engine_inv_write)
  then show ?thesis by (simp add: y_def d_def)
qed

lemma cancelReservation_inv:
  assumes inv: "engine_inv N x e" and res: "cancelReservation now i e = Inr (r, e')"
  shows "engine_inv N x e'"
proof (cases "row_status (store e ! i) = ACTIVE")
  case False
  then have "e' = e" using res by (simp add: cancelReservation_def split: if_splits)
  then show ?thesis using inv by simp
next
  case True
  have i: "i < length (store e)" using res by (simp add: cancelReservation_def split: if_splits)
  obtain it where led: "ledger e (row_itemId (store e ! i)) = Some it"
    using res i True by (cases "ledger e (row_itemId (store e ! i))") (simp_all add: cancelReservation_def)
  have "e' = e\<lparr>ledger := (ledger e)(row_itemId (store e ! i) \<mapsto>
                          it\<lparr>availableQuantity := availableQuantity it + row_quantity (store e ! i)\<rparr>),
              store := (store e)[i := (store e ! i)\<lparr>row_status := EXPIRED, row_expiresAt := now\<rparr>]\<rparr>"
    using res i True led by (auto simp: cancelReservation_def restore_def split: if_splits)
  then show ?thesis using release_inv [OF inv i True led] by simp
qed

lemma expireReservation_inv:
  assumes inv: "engine_inv N x e" and res: "expireReservation now i expected e = Inr e'"
  shows "engine_inv N x e'"
proof (cases "row_status (store e ! i) = ACTIVE \<and> row_expiresAt (store e ! i) \<le> now")
  case False
  then have "e' = e" using res by (simp add: expireReservation_def split: if_splits)
  then show ?thesis using inv by simp
next
  case True
  have i: "i < length (store e)" using res by (simp add: expireReservation_def split: if_splits)
  obtain it where led: "ledger e (row_itemId (store e ! i)) = Some it"
    using res i True by (cases "ledger e (row_itemId (store e ! i))") (simp_all add: expireReservation_def)
  have "e' = e\<lparr>ledger := (ledger e)(row_itemId (store e ! i) \<mapsto>
                          it\<lparr>availableQuantity := availableQuantity it + row_quantity (store e ! i)\<rparr>),
              store := (store e)[i := (store e ! i)\<lparr>row_status := EXPIRED\<rparr>]\<rparr>"
    using res i True led by (auto simp: expireReservation_def restore_def split: if_splits)
  then show ?thesis using release_inv [OF inv i _ led] True by simp
qed

lemma exec_op_inv:
  assumes "engine_inv N x e" "holds_or_releases op"
  shows "engine_inv N x (snd (exec_op TTL op e))"
proof (cases op)
  case (OpCreateOrExtend now actor y q)
  then show ?thesis
    using assms createOrExtend_inv [of N x e q TTL now actor y]
    by (cases "createOrExtend TTL now actor y q e") auto
next
  case (OpComplete i)
  then show ?thesis using assms by simp
next
  case (OpCancel now i)
  then show ?thesis
    using assms cancelReservation_inv [of N x e now i]
    by (cases "cancelReservation now i e") auto
next
  case (OpExpire now i expected)
  then show ?thesis
    using assms expireReservation_inv [of N x e now i expected]
    by (cases "expireReservation now i expected e") auto
qed

lemma run_ops_snd:
  "snd (run_ops TTL (op # ops) e) = snd (run_ops TTL ops (snd (exec_op TTL op e)))"
  "fst (run_ops TTL (op # ops) e)
     = fst (exec_op TTL op e) # fst (run_ops TTL ops (snd (exec_op TTL op e)))"
  by (simp_all add: split_beta)

lemma run_ops_inv:
  assumes "engine_inv N x e" "\<forall>op\<in>set ops. holds_or_releases op"
  shows "engine_inv N x (snd (run_ops TTL ops e))"
  using assms
proof (induction ops arbitrary: e)
  case Nil
  then show ?case by simp
next
  case (Cons op ops)
  have "engine_inv N x (snd (exec_op TTL op e))" using Cons.prems by (intro exec_op_inv) simp_all
  then have "engine_inv N x (snd (run_ops TTL ops (snd (exec_op TTL op e))))"
    using Cons.prems by (intro Cons.IH) simp_all
  then show ?case by (simp only: run_ops_snd)
qed

lemma create_fails:
  assumes "ledger e x = Some it" "availableQuantity it < q"
  shows "exec_op TTL (OpCreateOrExtend now actor x q) e = (Some InsufficientStock, e)"
  using assms by (simp add: createOrExtend_def tryDeduct_def)

lemma create_succeeds:
  assumes "ledger e x = Some it" "q \<le> availableQuantity it"
  shows "fst (exec_op TTL (OpCreateOrExtend now actor x q) e) = None"
    "ledger (snd (exec_op TTL (OpCreateOrExtend now actor x q) e)) x
       = Some (it\<lparr>availableQuantity := availableQuantity it - q\<rparr>)"
  using assms by (simp_all add: createOrExtend_def tryDeduct_def Let_def)

lemma concurrent_counts:
  assumes "0 < q" "\<forall>op\<in>set ops. \<exists>now actor. op = OpCreateOrExtend now actor x q"
    "ledger e x = Some it" "0 \<le> availableQuantity it"
  shows "count_list (fst (run_ops TTL ops e)) None
           = min (length ops) (nat (availableQuantity it div q))
       \<and> count_list (fst (run_ops TTL ops e)) (Some InsufficientStock)
           = length ops - min (length ops) (nat (availableQuantity it div q))"
  using assms
proof (induction ops arbitrary: e it)
  case Nil
  then show ?case by simp
next
  case (Cons op ops)
  obtain now actor where op: "op = OpCreateOrExtend now actor x q" using Cons.prems(2) by auto
  have rest: "\<forall>op\<in>set ops. \<exists>now actor. op = OpCreateOrExtend now actor x q"
    using Cons.prems(2) by simp
  show ?case
  proof (cases "availableQuantity it < q")
    case True
    have z: "availableQuantity it div q = 0" using True Cons.prems(4) by simp
    have ex: "exec_op TTL op e = (Some InsufficientStock, e)"
      unfolding op using Cons.prems(3) True by (rule create_fails)
    note ih = Cons.IH [OF Cons.prems(1) rest Cons.prems(3) Cons.prems(4)]
    have hd: "fst (run_ops TTL (op # ops) e) = Some InsufficientStock # fst (run_ops TTL ops e)"
      by (simp only: run_ops_snd ex fst_conv snd_conv)
    show ?thesis unfolding hd using ih by (simp add: z)
  next
    case False
    then have ge: "q \<le> availableQuantity it" by simp
    note ok = create_succeeds [OF Cons.prems(3) ge, of TTL now actor, folded op]
    have nn: "0 \<le> availableQuantity (it\<lparr>availableQuantity := availableQuantity it - q\<rparr>)"
      using ge by simp
    note ih = Cons.IH [OF Cons.prems(1) rest ok(2) nn]
    have "(availableQuantity it - q) div q = availableQuantity it div q - 1"
      using Cons.prems(1) div_mult_self1 [of q "availableQuantity it" "- 1"] by simp
    moreover have "1 \<le> availableQuantity it div q"
      using ge Cons.prems(1) pos_imp_zdiv_pos_iff [of q "availableQuantity it"] by linarith
    ultimately have d: "nat (availableQuantity it div q) = Suc (nat ((availableQuantity it - q) div q))"
      by simp
    have hd: "fst (run_ops TTL (op # ops) e) = None # fst (run_ops TTL ops (snd (exec_op TTL op e)))"
      by (simp only: run_ops_snd ok(1))
    show ?thesis unfolding hd using ih by (simp add: d)
  qed
qed

lemma engine_inv_initial:
  assumes "ledger e x = Some it" "availableQuantity it = N" "0 \<le> N"
    "\<forall>r\<in>set (store e). row_itemId r = x \<longrightarrow> row_status r \<noteq> ACTIVE"
  shows "engine_inv N x e"
proof -
  have z: "\<forall>r\<in>set (store e). on_item x r = 0" using assms(4) by (auto simp: on_item_def)
  then have "(\<Sum>r\<leftarrow>store e. on_item x r) = 0" by (simp add: sum_list_0 cong: map_cong)
  then show ?thesis using assms(1,2,3) z by (simp add: engine_inv_def conserved_def held_on_item)
qed

lemma run_ops_length: "length (fst (run_ops TTL ops e)) = length ops"
  by (induction ops arbitrary: e) (simp_all add: split_beta)

lemma floor_below:
  assumes "0 < (q::int)" "0 \<le> N" "N < int K * q"
  shows "min K (nat (N div q)) = nat (N div q)"
proof -
  have "N div q * q \<le> N"
    using assms(1) div_mult_mod_eq [of N q] pos_mod_sign [of q N] by linarith
  then have "N div q * q < int K * q" using assms(3) by linarith
  then have "N div q < int K" using assms(1) by (simp add: mult_less_cancel_right)
  then show ?thesis by simp
qed

subsection \<open>Evaluations of the examples\<close>




section \<open>The claims\<close>

subsection \<open>C1\<close>

text \<open>
  Claim C1, for the engine as the specification describes it. Let item \<open>x\<close> have total
  stock \<open>N\<close>, all of it available, and no \<open>ACTIVE\<close> reservation. For every sequence of
  Create or Extend operations with quantities above 0, Cancel and Expire operations, on
  any items and by any actors, in whatever order they acquire their locks: after every
  prefix of the sequence the available quantity of \<open>x\<close> is not negative, and together
  with the quantities of the \<open>ACTIVE\<close> reservations on \<open>x\<close> it is \<open>N\<close>. When the sequence
  consists of \<open>K\<close> Create or Extend requests for \<open>q\<close> of \<open>x\<close> each, with \<open>K * q > N\<close>, then
  in every order exactly \<open>N div q\<close> of them succeed, and the other \<open>K - N div q\<close> fail
  with \<open>InsufficientStock\<close>.
\<close>

theorem createOrExtend_no_oversell:
  assumes "ledger e x = Some it" "totalQuantity it = N" "availableQuantity it = N" "0 \<le> N"
    and "\<forall>r\<in>set (store e). row_itemId r = x \<longrightarrow> row_status r \<noteq> ACTIVE"
    and "\<forall>op\<in>set ops. holds_or_releases op"
  shows "(\<forall>n. conserved N x (snd (run_ops TTL (take n ops) e)))
     \<and> (0 < q \<and> N < int (length ops) * q
          \<and> (\<forall>op\<in>set ops. \<exists>now actor. op = OpCreateOrExtend now actor x q)
        \<longrightarrow> length (fst (run_ops TTL ops e)) = length ops
            \<and> count_list (fst (run_ops TTL ops e)) None = nat (N div q)
            \<and> count_list (fst (run_ops TTL ops e)) (Some InsufficientStock)
                 = length ops - nat (N div q))"
proof (intro conjI allI impI)
  fix n
  have inv: "engine_inv N x e" using assms(1,3,4,5) by (rule engine_inv_initial)
  have "\<forall>op\<in>set (take n ops). holds_or_releases op"
    using assms(6) in_set_takeD [of _ n ops] by blast
  with inv have "engine_inv N x (snd (run_ops TTL (take n ops) e))" by (rule run_ops_inv)
  then show "conserved N x (snd (run_ops TTL (take n ops) e))" by (simp add: engine_inv_def)
next
  assume a: "0 < q \<and> N < int (length ops) * q
          \<and> (\<forall>op\<in>set ops. \<exists>now actor. op = OpCreateOrExtend now actor x q)"
  then have q: "0 < q" and k: "N < int (length ops) * q"
    and all: "\<forall>op\<in>set ops. \<exists>now actor. op = OpCreateOrExtend now actor x q"
    by simp_all
  have nn: "0 \<le> availableQuantity it" using assms(3,4) by simp
  note counts = concurrent_counts [OF q all assms(1) nn, of TTL]
  have m: "min (length ops) (nat (N div q)) = nat (N div q)" using q assms(4) k by (rule floor_below)
  show "length (fst (run_ops TTL ops e)) = length ops" by (rule run_ops_length)
  show "count_list (fst (run_ops TTL ops e)) None = nat (N div q)"
    using counts by (simp only: assms(3) m)
  show "count_list (fst (run_ops TTL ops e)) (Some InsufficientStock) = length ops - nat (N div q)"
    using counts by (simp only: assms(3) m)
qed

theorem createOrExtend_no_oversell_witness:
  "fst (run_ops 120000 three_requests engine0) = [None, None, Some InsufficientStock]
   \<and> count_list (fst (run_ops 120000 three_requests engine0)) None = 2
   \<and> count_list (fst (run_ops 120000 three_requests engine0)) (Some InsufficientStock) = 1
   \<and> ledger (snd (run_ops 120000 three_requests engine0)) ''X''
       = Some \<lparr>totalQuantity = 5, availableQuantity = 1\<rparr>
   \<and> conserved 5 ''X'' (snd (run_ops 120000 three_requests engine0))
   \<and> fst (run_ops 120000 scenario engine0) = [None, Some InsufficientStock, None, None]
   \<and> conserved 5 ''X'' (snd (run_ops 120000 (take 3 scenario) engine0))
   \<and> held (snd (run_ops 120000 (take 3 scenario) engine0)) ''X'' = 5
   \<and> conserved 5 ''X'' (snd (run_ops 120000 scenario engine0))
   \<and> ledger (snd (run_ops 120000 scenario engine0)) ''X''
       = Some \<lparr>totalQuantity = 5, availableQuantity = 5\<rparr>"
proof -
  have l: "ledger engine0 ''X'' = Some \<lparr>totalQuantity = 5, availableQuantity = 5\<rparr>"
    by (simp add: engine0_def)
  have t: "totalQuantity \<lparr>totalQuantity = 5, availableQuantity = 5\<rparr> = 5" by simp
  have a: "availableQuantity \<lparr>totalQuantity = 5, availableQuantity = 5\<rparr> = 5" by simp
  have n: "(0::int) \<le> 5" by simp
  have s: "\<forall>r\<in>set (store engine0). row_itemId r = ''X'' \<longrightarrow> row_status r \<noteq> ACTIVE"
    by (simp add: engine0_def)
  have h3: "\<forall>op\<in>set three_requests. holds_or_releases op" by (simp add: three_requests_def)
  have hs: "\<forall>op\<in>set scenario. holds_or_releases op" by (simp add: scenario_def)
  have c: "0 < (2::int) \<and> 5 < int (length three_requests) * 2
          \<and> (\<forall>op\<in>set three_requests. \<exists>now actor. op = OpCreateOrExtend now actor ''X'' 2)"
    by (simp add: three_requests_def)
  note i3 = createOrExtend_no_oversell [OF l t a n s h3, of 120000 2]
  note i4 = createOrExtend_no_oversell [OF l t a n s hs, of 120000 2]
  have k: "length three_requests = 3" by (simp add: three_requests_def)
  have d: "nat (5 div 2) = 2" by simp
  have c1: "count_list (fst (run_ops 120000 three_requests engine0)) None = 2"
    using i3 [THEN conjunct2, rule_format, OF c, THEN conjunct2, THEN conjunct1] by (simp only: d)
  have c2: "count_list (fst (run_ops 120000 three_requests engine0)) (Some InsufficientStock) = 1"
    using i3 [THEN conjunct2, rule_format, OF c, THEN conjunct2, THEN conjunct2]
    by (simp add: d k)
  have c3: "conserved 5 ''X'' (snd (run_ops 120000 three_requests engine0))"
    using i3 [THEN conjunct1, rule_format, of 3] by (simp add: three_requests_def)
  have c4: "conserved 5 ''X'' (snd (run_ops 120000 (take 3 scenario) engine0))"
    by (rule i4 [THEN conjunct1, rule_format])
  have c5: "conserved 5 ''X'' (snd (run_ops 120000 scenario engine0))"
    using i4 [THEN conjunct1, rule_format, of 4] by (simp add: scenario_def)
  have r1: "fst (run_ops 120000 three_requests engine0) = [None, None, Some InsufficientStock]"
    by code_simp
  have r2: "ledger (snd (run_ops 120000 three_requests engine0)) ''X''
       = Some \<lparr>totalQuantity = 5, availableQuantity = 1\<rparr>"
    by code_simp
  have r3: "fst (run_ops 120000 scenario engine0) = [None, Some InsufficientStock, None, None]"
    by code_simp
  have r4: "held (snd (run_ops 120000 (take 3 scenario) engine0)) ''X'' = 5"
    by code_simp
  have r5: "ledger (snd (run_ops 120000 scenario engine0)) ''X''
       = Some \<lparr>totalQuantity = 5, availableQuantity = 5\<rparr>"
    by code_simp
  show ?thesis using c1 c2 c3 c4 c5 r1 r2 r3 r4 r5 by blast
qed

subsection \<open>C2\<close>

text \<open>
  Claim C2. For an \<open>expiresAt\<close> that the effect accepts (neither undefined nor empty) and
  that parses to the time \<open>t\<close>, the \<open>remainingMs\<close> set by the latest tick, at clock reading
  \<open>now\<close>, is \<open>max (t - now) 0\<close>; it is never negative. It depends on nothing else: not on
  the state before, the callback, the reading that initialised \<^verbatim>\<open>last\<close> or the earlier
  ticks. When \<open>expiresAt\<close> is undefined (or empty, which the guard treats alike) no tick
  runs, \<open>remainingMs\<close> is null and \<open>mm\<close> and \<open>ss\<close> both render as \<^verbatim>\<open>--\<close>. For a string
  that does not parse every tick sets \<open>remainingMs\<close> to 0.
\<close>

theorem useReservationTimer_remainingMs:
  "(falsy e \<longrightarrow>
      useReservationTimer_result (useEffect_timer getTime e cb now0 now1 nows s) = (None, ''--'', ''--''))
   \<and> (\<not> falsy e \<longrightarrow>
        (\<forall>t. getTime (the e) = Some t \<longrightarrow>
           remainingMs (useEffect_timer getTime e cb now0 now1 nows s)
             = Some (max (t - last (now1 # nows)) 0))
      \<and> (getTime (the e) = None \<longrightarrow>
           remainingMs (useEffect_timer getTime e cb now0 now1 nows s) = Some 0)
      \<and> (\<exists>r. remainingMs (useEffect_timer getTime e cb now0 now1 nows s) = Some r \<and> 0 \<le> r)
      \<and> remainingMs (useEffect_timer getTime e cb now0 now1 nows s)
           = remainingMs (useEffect_timer getTime e cb' now0' (last (now1 # nows)) [] s'))"
proof (cases "falsy e")
  case True
  then show ?thesis
    by (simp add: useEffect_timer_def useReservationTimer_result_def mm_def ss_def totalSeconds_def)
next
  case False
  then show ?thesis
    by (simp add: useEffect_timer_remaining split: option.splits)
qed

theorem useReservationTimer_remainingMs_witness:
  "remainingMs (useEffect_timer demo_getTime (Some ''2025-01-01T00:02:00.000Z'') True
      1735689600000 1735689600000 [1735689601000, 1735689602000] timer0) = Some 118000
   \<and> useReservationTimer_result (useEffect_timer demo_getTime (Some ''2025-01-01T00:02:00.000Z'') True
      1735689600000 1735689600000 [1735689601000, 1735689602000] timer0) = (Some 118000, ''01'', ''58'')
   \<and> remainingMs (useEffect_timer demo_getTime (Some ''soon'') True
      1735689600000 1735689600000 [1735689601000] timer0) = Some 0
   \<and> useReservationTimer_result (useEffect_timer demo_getTime None True
      1735689600000 1735689600000 [1735689601000] timer0) = (None, ''--'', ''--'')"
proof -
  have a: "\<not> falsy (Some ''2025-01-01T00:02:00.000Z'')" "\<not> falsy (Some ''soon'')" "falsy None"
    by (simp_all add: falsy_def)
  have t: "demo_getTime (the (Some ''2025-01-01T00:02:00.000Z'')) = Some 1735689720000"
          "demo_getTime (the (Some ''soon'')) = None"
    by (simp_all add: demo_getTime_def)
  note i1 = useReservationTimer_remainingMs [of "Some ''2025-01-01T00:02:00.000Z''" demo_getTime True
          1735689600000 1735689600000 "[1735689601000, 1735689602000]" timer0]
  note i2 = useReservationTimer_remainingMs [of "Some ''soon''" demo_getTime True
          1735689600000 1735689600000 "[1735689601000]" timer0]
  note i3 = useReservationTimer_remainingMs [of None demo_getTime True
          1735689600000 1735689600000 "[1735689601000]" timer0]
  have r1: "remainingMs (useEffect_timer demo_getTime (Some ''2025-01-01T00:02:00.000Z'') True
      1735689600000 1735689600000 [1735689601000, 1735689602000] timer0) = Some 118000"
    using i1 a t by simp
  have r2: "remainingMs (useEffect_timer demo_getTime (Some ''soon'') True
      1735689600000 1735689600000 [1735689601000] timer0) = Some 0"
    using i2 a t by simp
  have r3: "useReservationTimer_result (useEffect_timer demo_getTime None True
      1735689600000 1735689600000 [1735689601000] timer0) = (None, ''--'', ''--'')"
    using i3 a by simp
  show ?thesis
    using r1 r2 r3
    by (simp add: useReservationTimer_result_def mm_def ss_def totalSeconds_def padStart_def
          String_int_def js_rem_def String_nat.simps)
qed

subsection \<open>C3\<close>

text \<open>
  Claim C3. The quantity is entered in \<^verbatim>\<open><input type="number" min={1}>\<close>, whose value is
  the empty string or a valid floating-point number, so that \<^verbatim>\<open>Number(e.target.value)\<close> is
  neither \<^verbatim>\<open>NaN\<close> nor \<^verbatim>\<open>+Infinity\<close>. For every sequence of events with such inputs, the
  quantity is a finite number that is at least 1, and every body of \<^verbatim>\<open>POST /reservations\<close>
  sent so far carries a JSON number that is at least 1. The input handler stores
  \<^verbatim>\<open>Math.max(1, Number(v))\<close>, and \<open>handleReserve\<close> sends nothing when \<^verbatim>\<open>quantity <= 0\<close>, adding
  one error toast instead.
\<close>

theorem handleReserve_quantity_at_least_1:
  assumes "\<forall>n. ChangeQuantity n \<in> set es \<longrightarrow> n \<noteq> NaN \<and> n \<noteq> PosInf"
  shows "(\<exists>x. quantity (fst (run S es (page0, []))) = Fin x \<and> 1 \<le> x)
     \<and> (\<forall>b. POST_reservations b \<in> set (snd (run S es (page0, [])))
           \<longrightarrow> (\<exists>q. b_quantity b = Some q \<and> 1 \<le> q))
     \<and> (\<forall>n s. quantity (onQuantityChange n s) = Math_max (Fin 1) n)
     \<and> (\<forall>s post pr rr. js_le (quantity s) (Fin 0) \<longrightarrow>
           snd (handleReserve S post pr rr s) = [] \<and>
           (\<exists>m. toasts (fst (handleReserve S post pr rr s))
                  = toasts s @ [\<lparr>t_id = toastCounter s + 1, t_type = ToastError, t_message = m\<rparr>]))"
proof -
  have "quantity_ok (quantity (fst (page0, ([]::request list))))"
    by (simp add: page0_def quantity_ok_def)
  then have "quantity_ok (quantity (fst (run S es (page0, [])))) \<and>
         (\<forall>b. POST_reservations b \<in> set (snd (run S es (page0, []))) \<longrightarrow> (\<exists>q. b_quantity b = Some q \<and> 1 \<le> q))"
    using assms by (intro run_quantity) auto
  then show ?thesis
    using handleReserve_refuses by (simp add: quantity_ok_def onQuantityChange_def)
qed

theorem handleReserve_quantity_at_least_1_witness:
  "quantity (fst (run demo_String
      [Mount ''u1'', ReloadAll (OkJson [pA, pB]) (OkJson []), SelectProduct pA,
       ChangeQuantity (Fin (-3))] (page0, []))) = Fin 1
   \<and> snd (run demo_String
      [Mount ''u1'', ReloadAll (OkJson [pA, pB]) (OkJson []), SelectProduct pA,
       ChangeQuantity (Fin (-3)), ChangeQuantity (Fin 2),
       ClickReserve (OkJson res_active) (OkJson [pA, pB]) (OkJson [res_active])] (page0, []))
     = [GET_products, GET_reservations_user ''u1'',
        POST_reservations \<lparr>b_productId = ''a'', b_quantity = Some 2, b_userId = ''u1''\<rparr>,
        GET_products, GET_reservations_user ''u1'']
   \<and> snd (handleReserve demo_String (OkJson res_active) (OkJson [pA, pB]) (OkJson [res_active])
            (page_ready\<lparr>quantity := Fin 0\<rparr>)) = []
   \<and> toasts (fst (handleReserve demo_String (OkJson res_active) (OkJson [pA, pB]) (OkJson [res_active])
            (page_ready\<lparr>quantity := Fin 0\<rparr>)))
       = [\<lparr>t_id = 1, t_type = ToastError, t_message = ''Quantity must be at least 1.''\<rparr>]"
  using handleReserve_quantity_at_least_1 [of "[Mount ''u1'', ReloadAll (OkJson [pA, pB]) (OkJson []), SelectProduct pA,
       ChangeQuantity (Fin (-3)), ChangeQuantity (Fin 2),
       ClickReserve (OkJson res_active) (OkJson [pA, pB]) (OkJson [res_active])]" demo_String]
  by (simp add: page0_def page_ready_def mountUserId_def reloadAll_def falsy_def fetchJSON_def selectProduct_def
        onQuantityChange_def handleReserve_def selectedProduct_def addToast_def Let_def
        pA_def pB_def res_active_def)

subsection \<open>C4\<close>

text \<open>
  Claim C4. When all active reservations carry the same \<open>expiresAt\<close>, the page version
  that takes the latest deadline and the one that takes the earliest compute the same
  result: undefined when there is no active reservation, and otherwise the ISO string of
  the common deadline (or, both, the RangeError of an unparsable one).
\<close>

theorem nextExpirationIso_max_eq_min:
  assumes "\<forall>r\<in>set (activeReservations rs). \<forall>r'\<in>set (activeReservations rs). r_expiresAt r = r_expiresAt r'"
  shows "nextExpirationIso_max getTime toISOString rs = nextExpirationIso_min getTime toISOString rs
    \<and> (activeReservations rs = [] \<longrightarrow> nextExpirationIso_max getTime toISOString rs = Inr None
          \<and> nextExpirationIso_min getTime toISOString rs = Inr None)
    \<and> (\<forall>r\<in>set (activeReservations rs).
          nextExpirationIso_max getTime toISOString rs
            = (case getTime (r_expiresAt r) of None \<Rightarrow> Inl RangeError
               | Some t \<Rightarrow> Inr (Some (toISOString t))))"
proof (cases "activeReservations rs")
  case Nil
  then show ?thesis by (simp add: nextExpirationIso_max_def nextExpirationIso_min_def)
next
  case (Cons a act)
  define e where "e = r_expiresAt a"
  have same: "\<forall>r\<in>set (a # act). r_expiresAt r = e"
  proof
    fix r assume "r \<in> set (a # act)"
    then have "r \<in> set (activeReservations rs)" "a \<in> set (activeReservations rs)"
      by (simp_all add: Cons)
    with assms show "r_expiresAt r = e" unfolding e_def by blast
  qed
  then have hd: "r_expiresAt a = e" and all:
    "\<forall>x\<in>set (map (\<lambda>r. getTime (r_expiresAt r)) act). x = getTime e"
    by simp_all
  have mx: "foldl time_max (getTime e) (map (\<lambda>r. getTime (r_expiresAt r)) act) = getTime e"
    using all by (rule foldl_time_max_same)
  have mn: "foldl time_min (getTime e) (map (\<lambda>r. getTime (r_expiresAt r)) act) = getTime e"
    using all by (rule foldl_time_min_same)
  have eq: "nextExpirationIso_max getTime toISOString rs
              = (case getTime e of None \<Rightarrow> Inl RangeError
                 | Some t \<Rightarrow> Inr (Some (toISOString t)))"
    by (simp add: nextExpirationIso_max_def Cons hd mx)
  have eq': "nextExpirationIso_min getTime toISOString rs
              = (case getTime e of None \<Rightarrow> Inl RangeError
                 | Some t \<Rightarrow> Inr (Some (toISOString t)))"
    by (simp add: nextExpirationIso_min_def Cons hd mn)
  show ?thesis
  proof (intro conjI ballI impI)
    show "nextExpirationIso_max getTime toISOString rs = nextExpirationIso_min getTime toISOString rs"
      by (simp only: eq eq')
  next
    assume "activeReservations rs = []"
    then show "nextExpirationIso_max getTime toISOString rs = Inr None" using Cons by simp
  next
    assume "activeReservations rs = []"
    then show "nextExpirationIso_min getTime toISOString rs = Inr None" using Cons by simp
  next
    fix r assume "r \<in> set (activeReservations rs)"
    then have "r_expiresAt r = e" using same by (simp only: Cons)
    then show "nextExpirationIso_max getTime toISOString rs
            = (case getTime (r_expiresAt r) of None \<Rightarrow> Inl RangeError
               | Some t \<Rightarrow> Inr (Some (toISOString t)))"
      by (simp only: eq)
  qed
qed

theorem nextExpirationIso_max_eq_min_witness:
  "nextExpirationIso_max demo_getTime demo_toISOString [res_active, res_expired, res_active2]
     = Inr (Some ''2025-01-01T00:02:00.000Z'')
   \<and> nextExpirationIso_min demo_getTime demo_toISOString [res_active, res_expired, res_active2]
     = Inr (Some ''2025-01-01T00:02:00.000Z'')
   \<and> nextExpirationIso_max demo_getTime demo_toISOString [res_expired] = Inr None
   \<and> nextExpirationIso_min demo_getTime demo_toISOString [res_expired] = Inr None"
proof -
  have act: "activeReservations [res_active, res_expired, res_active2] = [res_active, res_active2]"
    by (simp add: activeReservations_def res_active_def res_active2_def res_expired_def)
  have h: "\<forall>r\<in>set (activeReservations [res_active, res_expired, res_active2]).
           \<forall>r'\<in>set (activeReservations [res_active, res_expired, res_active2]).
             r_expiresAt r = r_expiresAt r'"
    unfolding act by (simp add: res_active_def res_active2_def)
  note inst = nextExpirationIso_max_eq_min [OF h, of demo_getTime demo_toISOString]
  have "res_active \<in> set (activeReservations [res_active, res_expired, res_active2])"
    unfolding act by simp
  with inst have "nextExpirationIso_max demo_getTime demo_toISOString [res_active, res_expired, res_active2]
      = (case demo_getTime (r_expiresAt res_active) of None \<Rightarrow> Inl RangeError
         | Some t \<Rightarrow> Inr (Some (demo_toISOString t)))"
    by blast
  then have one: "nextExpirationIso_max demo_getTime demo_toISOString [res_active, res_expired, res_active2]
      = Inr (Some ''2025-01-01T00:02:00.000Z'')"
    by (simp add: res_active_def demo_getTime_def demo_toISOString_def)
  have none: "activeReservations [res_expired] = []"
    by (simp add: activeReservations_def res_expired_def)
  then have h0: "\<forall>r\<in>set (activeReservations [res_expired]).
           \<forall>r'\<in>set (activeReservations [res_expired]). r_expiresAt r = r_expiresAt r'"
    by simp
  note inst0 = nextExpirationIso_max_eq_min [OF h0, of demo_getTime demo_toISOString]
  from inst0 none have "nextExpirationIso_max demo_getTime demo_toISOString [res_expired] = Inr None
     \<and> nextExpirationIso_min demo_getTime demo_toISOString [res_expired] = Inr None"
    by blast
  with inst one show ?thesis by simp
qed

subsection \<open>C5\<close>

text \<open>
  Claim C5. When \<open>handleReserve\<close> sends the POST and \<open>fetchJSON\<close> throws, the thrown value
  has a message \<open>m\<close>; exactly one toast is appended, of type error, whose text is
  \<^verbatim>\<open>Cannot reserve more than available stock.\<close> when \<open>m\<close> contains
  \<^verbatim>\<open>Not enough stock\<close> and \<open>m\<close> itself otherwise; the products and the reservations are
  unchanged, and the POST is the only request sent.
\<close>

theorem handleReserve_failure_toast:
  assumes "\<not> falsy (userId s)" "selectedProduct s = Some sp" "\<not> js_le (quantity s) (Fin 0)"
    "fetchJSON post = Inl e"
  shows "\<exists>m. e = Some m
     \<and> toasts (fst (handleReserve S post pr rr s))
         = toasts s @ [\<lparr>t_id = toastCounter s + 1, t_type = ToastError,
                        t_message = (if includes_str m ''Not enough stock''
                                     then ''Cannot reserve more than available stock.'' else m)\<rparr>]
     \<and> products (fst (handleReserve S post pr rr s)) = products s
     \<and> reservations (fst (handleReserve S post pr rr s)) = reservations s
     \<and> snd (handleReserve S post pr rr s)
         = [POST_reservations \<lparr>b_productId = p_id sp, b_quantity = JSON_number (quantity s),
                                 b_userId = the (userId s)\<rparr>]"
proof -
  obtain m where m: "e = Some m" using assms(4) fetchJSON_failure_has_message by blast
  show ?thesis
    using assms m
    by (simp add: handleReserve_def Let_def addToast_fields error_message_def)
qed

theorem handleReserve_failure_toast_witness:
  "toasts (fst (handleReserve demo_String (NotOk ''Not enough stock'' ''Bad Request'') (OkJson []) (OkJson []) page_ready))
     = [\<lparr>t_id = 1, t_type = ToastError, t_message = ''Cannot reserve more than available stock.''\<rparr>]
   \<and> products (fst (handleReserve demo_String (NotOk ''Not enough stock'' ''Bad Request'') (OkJson []) (OkJson []) page_ready)) = [pA, pB]
   \<and> reservations (fst (handleReserve demo_String (NotOk ''Not enough stock'' ''Bad Request'') (OkJson []) (OkJson []) page_ready)) = []"
  using handleReserve_failure_toast [of page_ready pA "NotOk ''Not enough stock'' ''Bad Request''" "Some ''Not enough stock''"
              demo_String "OkJson []" "OkJson []"]
  by (simp add: page_ready_def page0_def falsy_def selectedProduct_def fetchJSON_def pA_def pB_def)

subsection \<open>C6\<close>

text \<open>
  Claim C6, amended. The payment modal holds nothing or a reservation whose status was
  \<open>ACTIVE\<close> when the modal was opened, which is the status recorded in the object the
  modal holds: this holds initially, every event preserves it, so it holds after every
  run. \<open>openPaymentModal\<close> changes nothing for a reservation that is not \<open>ACTIVE\<close>, and a
  complete request is only ever sent for the reservation the modal holds, whose recorded
  status is \<open>ACTIVE\<close>. Nothing is said of the status the reservation has in the list of
  reservations at that moment: the modal is not updated when the list is reloaded.
\<close>

theorem paymentModal_holds_active_reservation:
  "modal_holds_active page0
   \<and> (\<forall>e s. modal_holds_active s \<longrightarrow> modal_holds_active (fst (step S e s)))
   \<and> modal_holds_active (fst (run S es (page0, [])))
   \<and> (\<forall>r s. r_status r \<noteq> ACTIVE \<longrightarrow> openPaymentModal r s = s)
   \<and> (\<forall>s outcome pr rr i.
         modal_holds_active s \<and> POST_complete i \<in> set (snd (handleConfirmPayment S outcome pr rr s))
         \<longrightarrow> (\<exists>m. paymentModalReservation s = Some m \<and> r_id m = i \<and> r_status m = ACTIVE))"
proof -
  have a: "modal_holds_active page0" by (simp add: modal_holds_active_def page0_def)
  then have b: "modal_holds_active (fst (run S es (page0, [])))" by (intro run_modal) simp
  have c: "\<exists>m. paymentModalReservation s = Some m \<and> r_id m = i \<and> r_status m = ACTIVE"
    if "modal_holds_active s" "POST_complete i \<in> set (snd (handleConfirmPayment S outcome pr rr s))"
    for s outcome pr rr i
    using handleConfirmPayment_fields(4) [OF that(2)] that(1) by (auto simp: modal_holds_active_def)
  show ?thesis using a b c step_modal by (auto simp: openPaymentModal_def)
qed

theorem paymentModal_holds_active_reservation_witness:
  "modal_holds_active (fst (run demo_String [Mount ''u1'', ClickComplete res_active, ClickComplete res_expired] (page0, [])))
   \<and> paymentModalReservation (fst (run demo_String [Mount ''u1'', ClickComplete res_active, ClickComplete res_expired] (page0, [])))
       = Some res_active
   \<and> openPaymentModal res_expired page0 = page0
   \<and> snd (run demo_String [Mount ''u1'', ClickComplete res_active,
             ConfirmPayment (OkJson (res_active\<lparr>r_status := COMPLETED\<rparr>)) (OkJson [pA, pB]) (OkJson [])] (page0, []))
       = [POST_complete ''r1'', GET_products, GET_reservations_user ''u1'']"
proof -
  note inst = paymentModal_holds_active_reservation
                [of demo_String "[Mount ''u1'', ClickComplete res_active, ClickComplete res_expired]"]
  have "r_status res_expired \<noteq> ACTIVE" by (simp add: res_expired_def)
  with inst have a: "openPaymentModal res_expired page0 = page0" by blast
  from inst have b: "modal_holds_active (fst (run demo_String [Mount ''u1'', ClickComplete res_active, ClickComplete res_expired] (page0, [])))"
    by blast
  show ?thesis
    using a b
    by (simp add: page0_def mountUserId_def openPaymentModal_def handleConfirmPayment_def
          reloadAll_def falsy_def fetchJSON_def addToast_def Let_def res_active_def res_expired_def)
qed

text \<open>
  As stated, the claim fails in its consequence that no complete request is initiated
  for a reservation the page knows to be terminal. The modal keeps the reservation as
  it was when the modal was opened. When the timer elapses while the modal is open, the
  reload stores reservation \<open>r1\<close> as \<open>EXPIRED\<close> in the list, the modal still holds \<open>r1\<close>
  as \<open>ACTIVE\<close>, and confirming the payment sends the complete request for \<open>r1\<close>.
\<close>

theorem paymentModal_stale_after_reload_counterexample:
  "reservations (fst (run demo_String
      [Mount ''u1'', ReloadAll (OkJson [pA, pB]) (OkJson [res_active]),
       ClickComplete (res_active\<lparr>r_product := Some pA\<rparr>),
       TimerElapsed (OkJson [pA, pB]) (OkJson [res_active\<lparr>r_status := EXPIRED\<rparr>])] (page0, [])))
     = [res_active\<lparr>r_status := EXPIRED, r_product := Some pA\<rparr>]
   \<and> paymentModalReservation (fst (run demo_String
      [Mount ''u1'', ReloadAll (OkJson [pA, pB]) (OkJson [res_active]),
       ClickComplete (res_active\<lparr>r_product := Some pA\<rparr>),
       TimerElapsed (OkJson [pA, pB]) (OkJson [res_active\<lparr>r_status := EXPIRED\<rparr>])] (page0, [])))
     = Some (res_active\<lparr>r_product := Some pA\<rparr>)
   \<and> snd (run demo_String
      [Mount ''u1'', ReloadAll (OkJson [pA, pB]) (OkJson [res_active]),
       ClickComplete (res_active\<lparr>r_product := Some pA\<rparr>),
       TimerElapsed (OkJson [pA, pB]) (OkJson [res_active\<lparr>r_status := EXPIRED\<rparr>]),
       ConfirmPayment (NotOk ''Reservation already expired'' ''Bad Request'') (OkJson [pA, pB]) (OkJson [])]
      (page0, []))
     = [GET_products, GET_reservations_user ''u1'', GET_products, GET_reservations_user ''u1'',
        POST_complete ''r1'']"
  by (simp add: page0_def mountUserId_def openPaymentModal_def handleConfirmPayment_def
        handleTimerElapsed_def reloadAll_def falsy_def fetchJSON_def addToast_def Let_def
        res_active_def pA_def pB_def error_message_def)

subsection \<open>C7\<close>

text \<open>
  Claim C7. \<open>activeReservations\<close> are exactly the reservations with status \<open>ACTIVE\<close>, and
  the countdown target depends on them alone: dropping the \<open>COMPLETED\<close> and \<open>EXPIRED\<close>
  reservations, or replacing their \<open>expiresAt\<close> by anything, leaves it unchanged, and with
  terminal reservations only it is undefined. This holds for the page version the claim
  cites (the latest deadline) and for the other one (the earliest).
\<close>

theorem nextExpirationIso_active_only:
  "set (activeReservations rs) = {r \<in> set rs. r_status r = ACTIVE}
   \<and> nextExpirationIso_max getTime toISOString rs
       = nextExpirationIso_max getTime toISOString
           (filter (\<lambda>r. r_status r \<noteq> COMPLETED \<and> r_status r \<noteq> EXPIRED) rs)
   \<and> nextExpirationIso_max getTime toISOString
        (map (\<lambda>r. if r_status r = ACTIVE then r else r\<lparr>r_expiresAt := f r\<rparr>) rs)
       = nextExpirationIso_max getTime toISOString rs
   \<and> ((\<forall>r\<in>set rs. r_status r = COMPLETED \<or> r_status r = EXPIRED)
        \<longrightarrow> nextExpirationIso_max getTime toISOString rs = Inr None)
   \<and> nextExpirationIso_min getTime toISOString rs
       = nextExpirationIso_min getTime toISOString
           (filter (\<lambda>r. r_status r \<noteq> COMPLETED \<and> r_status r \<noteq> EXPIRED) rs)
   \<and> nextExpirationIso_min getTime toISOString
        (map (\<lambda>r. if r_status r = ACTIVE then r else r\<lparr>r_expiresAt := f r\<rparr>) rs)
       = nextExpirationIso_min getTime toISOString rs
   \<and> ((\<forall>r\<in>set rs. r_status r = COMPLETED \<or> r_status r = EXPIRED)
        \<longrightarrow> nextExpirationIso_min getTime toISOString rs = Inr None)"
proof -
  have a: "activeReservations (filter (\<lambda>r. r_status r \<noteq> COMPLETED \<and> r_status r \<noteq> EXPIRED) rs) = activeReservations rs"
    unfolding activeReservations_def by (induction rs) auto
  have b: "activeReservations (map (\<lambda>r. if r_status r = ACTIVE then r else r\<lparr>r_expiresAt := f r\<rparr>) rs) = activeReservations rs"
    unfolding activeReservations_def by (induction rs) auto
  have c: "(\<forall>r\<in>set rs. r_status r = COMPLETED \<or> r_status r = EXPIRED) \<Longrightarrow> activeReservations rs = []"
    unfolding activeReservations_def by (induction rs) auto
  have d: "set (activeReservations rs) = {r \<in> set rs. r_status r = ACTIVE}"
    by (simp add: activeReservations_def)
  show ?thesis
    using c by (simp add: nextExpirationIso_max_def nextExpirationIso_min_def a b d)
qed

theorem nextExpirationIso_active_only_witness:
  "nextExpirationIso_max demo_getTime demo_toISOString
      [res_active, res_expired\<lparr>r_expiresAt := ''2025-01-01T00:00:00.000Z''\<rparr>]
     = nextExpirationIso_max demo_getTime demo_toISOString [res_active, res_expired]
   \<and> nextExpirationIso_max demo_getTime demo_toISOString [res_active, res_expired]
     = nextExpirationIso_max demo_getTime demo_toISOString [res_active]
   \<and> nextExpirationIso_max demo_getTime demo_toISOString [res_expired] = Inr None"
proof -
  note i1 = nextExpirationIso_active_only [of "[res_active, res_expired]" demo_getTime demo_toISOString
              "\<lambda>r. ''2025-01-01T00:00:00.000Z''"]
  note i2 = nextExpirationIso_active_only [of "[res_expired]" demo_getTime demo_toISOString
              "\<lambda>r. ''2025-01-01T00:00:00.000Z''"]
  have a: "nextExpirationIso_max demo_getTime demo_toISOString
      [res_active, res_expired\<lparr>r_expiresAt := ''2025-01-01T00:00:00.000Z''\<rparr>]
     = nextExpirationIso_max demo_getTime demo_toISOString [res_active, res_expired]"
    using i1 by (simp add: res_active_def res_expired_def)
  have b: "nextExpirationIso_max demo_getTime demo_toISOString [res_active, res_expired]
     = nextExpirationIso_max demo_getTime demo_toISOString [res_active]"
    using i1 by (simp add: res_active_def res_expired_def)
  have "\<forall>r\<in>set [res_expired]. r_status r = COMPLETED \<or> r_status r = EXPIRED"
    by (simp add: res_expired_def)
  with i2 have c: "nextExpirationIso_max demo_getTime demo_toISOString [res_expired] = Inr None"
    by blast
  show ?thesis using a b c by simp
qed

subsection \<open>C8\<close>

text \<open>
  Claim C8, amended. For a previous list whose product ids are pairwise distinct, the
  result of \<open>handleProductsUpdated\<close> has the same length and, position by position, the
  same ids, names and prices; a product whose id is in no update is unchanged, and a
  product whose id is in an update differs from the previous one only in
  \<open>availableStock\<close>, which is that of the last update for its id. Updates for other ids
  add nothing.
\<close>

theorem handleProductsUpdated_frame:
  assumes "distinct (map p_id prev)"
  shows "length (handleProductsUpdated us prev) = length prev
    \<and> map p_id (handleProductsUpdated us prev) = map p_id prev
    \<and> map p_name (handleProductsUpdated us prev) = map p_name prev
    \<and> map p_price (handleProductsUpdated us prev) = map p_price prev
    \<and> (\<forall>i<length prev. p_id (prev ! i) \<notin> u_id ` set us \<longrightarrow>
          handleProductsUpdated us prev ! i = prev ! i)
    \<and> (\<forall>i<length prev. \<forall>u. find (\<lambda>u. u_id u = p_id (prev ! i)) (rev us) = Some u \<longrightarrow>
          handleProductsUpdated us prev ! i = (prev ! i)\<lparr>p_availableStock := u_availableStock u\<rparr>)"
proof -
  have fields: "p_id (patched us p) = p_id p \<and> p_name (patched us p) = p_name p
                \<and> p_price (patched us p) = p_price p" for p
    by (simp add: patched_def split: option.splits)
  have untouched: "patched us p = p" if "p_id p \<notin> u_id ` set us" for p
    using find_None_notin [OF that] by (simp add: patched_def)
  have touched: "patched us p = p\<lparr>p_availableStock := u_availableStock u\<rparr>"
    if "find (\<lambda>u. u_id u = p_id p) (rev us) = Some u" for p u
    using that by (simp add: patched_def)
  show ?thesis
    unfolding handleProductsUpdated_closed [OF assms]
    by (simp add: fields untouched touched)
qed

theorem handleProductsUpdated_frame_witness:
  "map p_id (handleProductsUpdated [\<lparr>u_id = ''b'', u_availableStock = Fin 2\<rparr>, \<lparr>u_id = ''z'', u_availableStock = Fin 1\<rparr>] [pA, pB]) = [''a'', ''b'']
   \<and> handleProductsUpdated [\<lparr>u_id = ''b'', u_availableStock = Fin 2\<rparr>, \<lparr>u_id = ''z'', u_availableStock = Fin 1\<rparr>] [pA, pB] ! 0 = pA
   \<and> handleProductsUpdated [\<lparr>u_id = ''b'', u_availableStock = Fin 2\<rparr>, \<lparr>u_id = ''z'', u_availableStock = Fin 1\<rparr>] [pA, pB] ! 1 = pB\<lparr>p_availableStock := Fin 2\<rparr>"
  using handleProductsUpdated_frame [of "[pA, pB]" "[\<lparr>u_id = ''b'', u_availableStock = Fin 2\<rparr>, \<lparr>u_id = ''z'', u_availableStock = Fin 1\<rparr>]"]
  by (simp add: pA_def pB_def)

text \<open>
  As stated, for every previous list, the claim fails: of two products with the same id
  the \<^verbatim>\<open>Map\<close> keeps one entry, so a product is removed even by an empty update.
\<close>

theorem handleProductsUpdated_duplicate_id_counterexample: "handleProductsUpdated [] [pA, pA2] = [pA2]"
  by (simp add: handleProductsUpdated_def new_Map_def Map_values_def pA_def pA2_def)

subsection \<open>C9\<close>






subsection \<open>C10\<close>

text \<open>
  Claim C10, amended. Within one lifetime of the effect in which the clock readings
  never decrease, the number of \<^verbatim>\<open>onElapsed\<close> calls after any number of ticks is 1 when the
  callback was passed, the deadline parsed to a time after the reading that initialised
  \<^verbatim>\<open>last\<close>, and the latest tick has reached the deadline; it is 0 otherwise. So the
  callback runs at most once, at the first tick at or after the deadline, and never
  when the deadline had already passed when the effect started.
\<close>

theorem onElapsed_at_most_once:
  "sorted (now0 # now1 # nows) \<Longrightarrow>
   elapsedCalls (useEffect_timer getTime e cb now0 now1 nows s)
     = elapsedCalls s +
       (if cb \<and> \<not> falsy e \<and> (\<exists>t. getTime (the e) = Some t \<and> now0 < t \<and> t \<le> last (now1 # nows))
        then 1 else 0)"
proof (cases "falsy e")
  case True
  then show ?thesis by (simp add: useEffect_timer_def)
next
  case nf: False
  assume srt: "sorted (now0 # now1 # nows)"
  show ?thesis
  proof (cases "getTime (the e)")
    case None
    then show ?thesis using nf
      by (simp add: useEffect_timer_def Let_def foldl_tick_calls_NaN Math_max0_def time_minus_def gt0_def del: foldl.simps)
  next
    case (Some t)
    have "elapsedCalls (snd (foldl (\<lambda>st now. tick cb (Some t) now st) (Some (max (t - now0) 0), s) (now1 # nows)))
           = elapsedCalls s + (if cb \<and> now0 < t \<and> t \<le> last (now0 # now1 # nows) then 1 else 0)"
      using srt by (intro foldl_tick_calls_sorted) auto
    then show ?thesis using nf Some
      by (simp add: useEffect_timer_def Let_def Math_max0_def time_minus_def del: foldl.simps)
  qed
qed

theorem onElapsed_at_most_once_witness:
  "elapsedCalls (useEffect_timer demo_getTime (Some ''2025-01-01T00:02:00.000Z'') True
      1735689600000 1735689600000 [1735689601000, 1735689720000, 1735689721000] timer0) = 1
   \<and> elapsedCalls (useEffect_timer demo_getTime (Some ''2025-01-01T00:00:00.000Z'') True
      1735689600000 1735689600000 [1735689601000] timer0) = 0"
  using onElapsed_at_most_once [of 1735689600000 1735689600000 "[1735689601000, 1735689720000, 1735689721000]"
          demo_getTime "Some ''2025-01-01T00:02:00.000Z''" True timer0]
    onElapsed_at_most_once [of 1735689600000 1735689600000 "[1735689601000]"
          demo_getTime "Some ''2025-01-01T00:00:00.000Z''" True timer0]
  by (simp add: falsy_def timer0_def demo_getTime_def)

text \<open>
  As stated, for every sequence of clock readings, the claim fails: when the clock is set
  back after the deadline was reached, the callback runs again (here the fourth tick
  reads the clock one minute earlier than the third).
\<close>

theorem onElapsed_clock_backwards_counterexample:
  "elapsedCalls (useEffect_timer demo_getTime (Some ''2025-01-01T00:02:00.000Z'') True
      1735689600000 1735689600000
      [1735689719000, 1735689720000, 1735689660000, 1735689720000] timer0) = 2"
  by (simp add: useEffect_timer_def falsy_def Let_def tick_def gt0_def time_minus_def Math_max0_def
        timer0_def demo_getTime_def)

end
